theory Spec2Isabelle
  imports Main "HOL-Library.Word"
begin

unbundle bit_operations_syntax

section \<open>Fibers (m_cor.h, m_cor.cpp)\<close>

text \<open>
  Objects live in a heap addressed by natural numbers; a null pointer (raw or shared) is
  \<open>None\<close>. Every assertion of the source (\<open>EVENT_ASSERT\<close>), every dereference of a
  null pointer and every read outside a vector is a branch of the model that returns an
  error.
\<close>

type_synonym addr = nat

datatype error = AssertFail | NullDeref | OutOfRange | BadFunctionCall | Unsupported

text \<open>\<open>enum State\<close> of m_cor.h.\<close>

datatype State = READY | RUNNING | TERM

text \<open>
  A \<open>std::function<void()>\<close>. The scheduler binds its own member functions
  (\<open>Scheduler::run\<close>, \<open>Scheduler::idle\<close>); every other function is user code, known
  by a label.
\<close>

datatype func = UserFn nat | SchedulerRun | SchedulerIdle

text \<open>
  A \<open>ucontext_t\<close>. A context filled by \<open>getcontext\<close> or \<open>swapcontext\<close> is a snapshot
  of the running code, named by the place where it was taken: inside a constructor's or
  \<open>reset\<close>'s \<open>getcontext\<close>, inside \<open>resume()\<close> of a fiber (activating it makes that
  \<open>resume\<close> return), or inside \<open>yield()\<close> of a fiber (activating it continues the fiber's
  entry function after its n-th suspension). A context prepared by \<open>makecontext\<close> holds
  \<open>uc_link\<close>, \<open>uc_stack.ss_sp\<close>, \<open>uc_stack.ss_size\<close> and the entry point, which is
  always \<open>Cor::MainFunc\<close>. The calls \<open>getcontext\<close> and \<open>swapcontext\<close> themselves are
  taken to succeed.
\<close>

datatype point = AtGetcontext | AtResume addr | AtYield addr nat

datatype entry = MainFunc

datatype ucontext =
    Captured point
  | Made "addr option" "addr option" "64 word" entry

text \<open>The data members of \<open>class Cor\<close>.\<close>

record Cor =
  m_id :: "64 word"
  m_stacksize :: "32 word"
  m_state :: State
  m_ctx :: ucontext
  m_stack :: "addr option"
  m_cb :: "func option"

text \<open>
  The process-global counters \<open>e_cor_id\<close> and \<open>e_cor_count\<close>, the heap of fibers, and
  the thread-local variables of the executing thread: \<open>t_cor\<close>, \<open>t_thread_cor\<close>
  (m_cor.cpp), \<open>t_scheduler\<close>, \<open>t_scheduler_cor\<close> (scheduler.cpp). \<open>pc\<close> is the context
  the thread is executing: the one last activated by \<open>swapcontext\<close>.
\<close>

record world =
  cors :: "addr \<Rightarrow> Cor option"
  e_cor_id :: "64 word"
  e_cor_count :: "64 word"
  t_cor :: "addr option"
  t_thread_cor :: "addr option"
  t_scheduler :: "addr option"
  t_scheduler_cor :: "addr option"
  pc :: ucontext

text \<open>\<open>Cor::GetCorId\<close>: the id of \<open>t_cor\<close>, or 0 when \<open>t_cor\<close> is null.\<close>

definition GetCorId :: "world \<Rightarrow> error + 64 word" where
  "GetCorId w =
     (case t_cor w of
        Some p \<Rightarrow> (case cors w p of None \<Rightarrow> Inl NullDeref | Some c \<Rightarrow> Inr (m_id c))
      | None \<Rightarrow> Inr 0)"

definition SetThis :: "world \<Rightarrow> addr option \<Rightarrow> world" where
  "SetThis w c = w\<lparr>t_cor := c\<rparr>"

text \<open>
  The member initialisers of m_cor.h: \<open>m_id = 0\<close>, \<open>m_stacksize = 0\<close>,
  \<open>m_state = READY\<close>, \<open>m_stack = nullptr\<close>, an empty \<open>m_cb\<close>. The context is
  written by both constructors before anything reads it.
\<close>

definition Cor_init :: Cor where
  "Cor_init = \<lparr>m_id = 0, m_stacksize = 0, m_state = READY,
     m_ctx = Captured AtGetcontext, m_stack = None, m_cb = None\<rparr>"

text \<open>
  The private constructor \<open>Cor::Cor()\<close> of a thread's main fiber, building the object at
  address \<open>this\<close>: \<open>SetThis(this)\<close>, state RUNNING, \<open>getcontext\<close>, \<open>++e_cor_count\<close>,
  \<open>m_id = e_cor_id++\<close>.
\<close>

definition Cor_main_ctor :: "world \<Rightarrow> addr \<Rightarrow> world" where
  "Cor_main_ctor w this =
     (let w1 = SetThis w (Some this);
          c = Cor_init\<lparr>m_state := RUNNING, m_ctx := Captured AtGetcontext,
                m_id := e_cor_id w1\<rparr>
      in w1\<lparr>cors := (cors w1)(this \<mapsto> c),
            e_cor_count := e_cor_count w1 + 1,
            e_cor_id := e_cor_id w1 + 1\<rparr>)"

text \<open>
  \<open>Cor::GetThis\<close>: the current fiber; when there is none, the main fiber is created (at
  the address \<open>fresh\<close> that \<open>new\<close> returns) and becomes \<open>t_thread_cor\<close>.
\<close>

definition GetThis :: "world \<Rightarrow> addr \<Rightarrow> error + (addr \<times> world)" where
  "GetThis w fresh =
     (case t_cor w of
        Some p \<Rightarrow> Inr (p, w)
      | None \<Rightarrow>
          (let w1 = Cor_main_ctor w fresh in
           if t_cor w1 \<noteq> Some fresh then Inl AssertFail
           else (case t_cor w1 of
                   None \<Rightarrow> Inl NullDeref
                 | Some p \<Rightarrow> Inr (p, w1\<lparr>t_thread_cor := Some fresh\<rparr>))))"

text \<open>
  \<open>Cor::Cor(cb, stacksize)\<close>, building the object at \<open>this\<close>. \<open>stack\<close> is what
  \<open>StackAllocator::Alloc\<close> (\<open>malloc\<close>) returns and \<open>cfg\<close> the value of the configuration
  variable \<open>cor.stack_size\<close>. \<open>stacksize\<close> is a \<open>size_t\<close>, the member \<open>m_stacksize\<close> a
  \<open>uint32_t\<close>: the assignment truncates.
\<close>

definition Cor_ctor ::
  "world \<Rightarrow> addr \<Rightarrow> addr option \<Rightarrow> 32 word \<Rightarrow> func option \<Rightarrow> 64 word \<Rightarrow> world" where
  "Cor_ctor w this stack cfg cb stacksize =
     (let ss = (ucast (if stacksize \<noteq> 0 then stacksize else ucast cfg) :: 32 word);
          c = Cor_init\<lparr>m_id := e_cor_id w, m_cb := cb, m_stacksize := ss,
                m_stack := stack, m_ctx := Made None stack (ucast ss) MainFunc\<rparr>
      in w\<lparr>cors := (cors w)(this \<mapsto> c),
           e_cor_id := e_cor_id w + 1,
           e_cor_count := e_cor_count w + 1\<rparr>)"

text \<open>
  \<open>Cor::~Cor\<close>, for the object at \<open>this\<close>: \<open>--e_cor_count\<close>; a fiber with a stack
  must be TERM, and its stack is freed; a fiber without a stack (a thread's main fiber)
  must have no entry function and be RUNNING, and \<open>t_cor\<close> is set to null if it was this
  fiber. The object is then gone from the heap.
\<close>

definition Cor_dtor :: "world \<Rightarrow> addr \<Rightarrow> error + world" where
  "Cor_dtor w this =
     (case cors w this of
        None \<Rightarrow> Inl NullDeref
      | Some c \<Rightarrow>
          (let w1 = w\<lparr>e_cor_count := e_cor_count w - 1\<rparr> in
           if m_stack c \<noteq> None
           then (if m_state c \<noteq> State.TERM then Inl AssertFail
                 else Inr (w1\<lparr>cors := (cors w1)(this := None)\<rparr>))
           else if m_cb c \<noteq> None then Inl AssertFail
           else if m_state c \<noteq> RUNNING then Inl AssertFail
           else
             (let w2 = (if t_cor w1 = Some this then SetThis w1 None else w1)
              in Inr (w2\<lparr>cors := (cors w2)(this := None)\<rparr>))))"

text \<open>
  \<open>Cor::reset\<close>: only for a fiber with a stack, in state TERM; the entry function is
  replaced, the context is made again on the same stack, the state becomes READY.
\<close>

definition Cor_reset :: "world \<Rightarrow> addr \<Rightarrow> func option \<Rightarrow> error + world" where
  "Cor_reset w this cb =
     (case cors w this of
        None \<Rightarrow> Inl NullDeref
      | Some c \<Rightarrow>
          if m_stack c = None then Inl AssertFail
          else if m_state c \<noteq> State.TERM then Inl AssertFail
          else Inr (w\<lparr>cors := (cors w)(this \<mapsto>
                 c\<lparr>m_cb := cb,
                   m_ctx := Made None (m_stack c) (ucast (m_stacksize c)) MainFunc,
                   m_state := READY\<rparr>)\<rparr>))"

text \<open>
  \<open>swapcontext(&o->m_ctx, &u->m_ctx)\<close>: the running context is saved into the fiber
  \<open>o\<close> (as a snapshot taken at \<open>pt\<close>), then the context stored in the fiber \<open>u\<close> is
  activated. The second is read after the first is written, so swapping a fiber with
  itself continues at the snapshot.
\<close>

definition swapcontext ::
  "world \<Rightarrow> point \<Rightarrow> addr option \<Rightarrow> addr option \<Rightarrow> error + world" where
  "swapcontext w pt oucp ucp =
     (case oucp of
        None \<Rightarrow> Inl NullDeref
      | Some a \<Rightarrow>
          (case cors w a of
             None \<Rightarrow> Inl NullDeref
           | Some ca \<Rightarrow>
               (let w1 = w\<lparr>cors := (cors w)(a \<mapsto> ca\<lparr>m_ctx := Captured pt\<rparr>)\<rparr> in
                case ucp of
                  None \<Rightarrow> Inl NullDeref
                | Some b \<Rightarrow>
                    (case cors w1 b of
                       None \<Rightarrow> Inl NullDeref
                     | Some cb \<Rightarrow> Inr (w1\<lparr>pc := m_ctx cb\<rparr>)))))"

text \<open>
  \<open>Cor::resume\<close>: the fiber must be neither TERM nor RUNNING; it becomes the current
  fiber, in state RUNNING, and the thread switches from the main fiber's context into
  the fiber's.
\<close>

definition Cor_resume :: "world \<Rightarrow> addr \<Rightarrow> error + world" where
  "Cor_resume w this =
     (case cors w this of
        None \<Rightarrow> Inl NullDeref
      | Some c \<Rightarrow>
          if \<not> (m_state c \<noteq> State.TERM \<and> m_state c \<noteq> RUNNING) then Inl AssertFail
          else
            (let w1 = SetThis w (Some this);
                 w2 = w1\<lparr>cors := (cors w1)(this \<mapsto> c\<lparr>m_state := RUNNING\<rparr>)\<rparr>
             in swapcontext w2 (AtResume this) (t_thread_cor w2) (Some this)))"

text \<open>
  \<open>yield\<close> (m_cor.cpp, after \<open>Cor::resume\<close>): for a fiber in state RUNNING or TERM; the
  thread's main fiber becomes the current fiber, a fiber that is not TERM becomes READY,
  and the thread switches from the fiber's context into the main fiber's. \<open>n\<close> counts the
  suspensions of the entry function so far; it only names the snapshot.
\<close>

definition Cor_yield :: "world \<Rightarrow> addr \<Rightarrow> nat \<Rightarrow> error + world" where
  "Cor_yield w this n =
     (case cors w this of
        None \<Rightarrow> Inl NullDeref
      | Some c \<Rightarrow>
          if \<not> (m_state c = RUNNING \<or> m_state c = State.TERM) then Inl AssertFail
          else
            (let w1 = SetThis w (t_thread_cor w);
                 w2 = (if m_state c \<noteq> State.TERM
                       then w1\<lparr>cors := (cors w1)(this \<mapsto> c\<lparr>m_state := READY\<rparr>)\<rparr>
                       else w1)
             in swapcontext w2 (AtYield this n) (Some this) (t_thread_cor w2)))"


section \<open>Scheduler (scheduler.h, scheduler.cpp)\<close>

text \<open>
  \<open>struct ScheduleTask\<close>: a fiber or a function, and the thread it is pinned to (-1
  for any thread).
\<close>

record ScheduleTask =
  cor :: "addr option"
  cb :: "func option"
  thread :: int

text \<open>
  What \<open>schedule\<close> is given: a \<open>Cor::ptr\<close>, a pointer to a \<open>Cor::ptr\<close> (whose content
  the task's constructor swaps out) or a \<open>std::function\<close>.
\<close>

datatype CorOrCb = OfCor "addr option" | OfCorPtr "addr option" | OfCb "func option"

text \<open>The default constructor \<open>ScheduleTask()\<close>, which is also what \<open>reset()\<close> leaves.\<close>

definition ScheduleTask_empty :: ScheduleTask where
  "ScheduleTask_empty = \<lparr>cor = None, cb = None, thread = - 1\<rparr>"

text \<open>The three constructors \<open>ScheduleTask(cc, thr)\<close>.\<close>

fun ScheduleTask_ctor :: "CorOrCb \<Rightarrow> int \<Rightarrow> ScheduleTask" where
  "ScheduleTask_ctor (OfCor c) thr = \<lparr>cor = c, cb = None, thread = thr\<rparr>"
| "ScheduleTask_ctor (OfCorPtr c) thr = \<lparr>cor = c, cb = None, thread = thr\<rparr>"
| "ScheduleTask_ctor (OfCb f) thr = \<lparr>cor = None, cb = f, thread = thr\<rparr>"

text \<open>
  What leaves the scheduler object: a call of the virtual \<open>tickle()\<close>, and the join of
  a worker thread.
\<close>

datatype effect = Tickle | Join int

text \<open>A worker thread handle (\<open>Thread::ptr\<close>): the thread's name and id.\<close>

record Thread =
  t_name :: string
  t_id :: int

text \<open>
  The data members of \<open>class Scheduler\<close>. \<open>m_rootFiber\<close> is read by \<open>stop()\<close> and is
  neither declared in scheduler.h nor written anywhere. \<open>effects\<close> records, in order,
  the calls that leave the object.
\<close>

record Scheduler =
  m_name :: string
  m_threads :: "Thread list"
  m_tasks :: "ScheduleTask list"
  m_threadIds :: "int list"
  m_threadCount :: nat
  m_activeThreadCount :: "64 word"
  m_idleThreadCount :: "64 word"
  m_useCaller :: bool
  m_rootCor :: "addr option"
  m_rootThread :: int
  m_stopping :: bool
  m_rootFiber :: "addr option"
  effects :: "effect list"

text \<open>\<open>Scheduler::tickle\<close>: the base class only logs; the call is recorded.\<close>

definition tickle :: "Scheduler \<Rightarrow> Scheduler" where
  "tickle s = s\<lparr>effects := effects s @ [Tickle]\<rparr>"

text \<open>
  \<open>scheduleNoLock\<close>: whether the queue was empty before, and the queue with the task
  appended when the task holds a fiber or a function.
\<close>

definition scheduleNoLock :: "Scheduler \<Rightarrow> CorOrCb \<Rightarrow> int \<Rightarrow> bool \<times> Scheduler" where
  "scheduleNoLock s cc thr =
     (let need_tickle = (m_tasks s = []);
          task = ScheduleTask_ctor cc thr
      in if cor task \<noteq> None \<or> cb task \<noteq> None
         then (need_tickle, s\<lparr>m_tasks := m_tasks s @ [task]\<rparr>)
         else (need_tickle, s))"

text \<open>\<open>schedule\<close>: \<open>scheduleNoLock\<close> under the mutex, then \<open>tickle()\<close> if it says so.\<close>

definition schedule :: "Scheduler \<Rightarrow> CorOrCb \<Rightarrow> int \<Rightarrow> Scheduler" where
  "schedule s cc thr =
     (case scheduleNoLock s cc thr of
        (need_tickle, s1) \<Rightarrow> if need_tickle then tickle s1 else s1)"

text \<open>\<open>Scheduler::stopping\<close>.\<close>

definition stopping :: "Scheduler \<Rightarrow> bool" where
  "stopping s = (m_stopping s \<and> m_tasks s = [] \<and> m_activeThreadCount s = 0)"

text \<open>
  The member initialisers of scheduler.h. \<open>m_useCaller\<close> and \<open>m_name\<close> are assigned first
  thing by the constructor; \<open>rootFiber0\<close> is whatever \<open>m_rootFiber\<close> holds, since nothing
  assigns it.
\<close>

definition Scheduler_init :: "addr option \<Rightarrow> Scheduler" where
  "Scheduler_init rootFiber0 =
     \<lparr>m_name = [], m_threads = [], m_tasks = [], m_threadIds = [], m_threadCount = 0,
      m_activeThreadCount = 0, m_idleThreadCount = 0, m_useCaller = False,
      m_rootCor = None, m_rootThread = 0, m_stopping = False,
      m_rootFiber = rootFiber0, effects = []\<rparr>"

text \<open>
  \<open>Scheduler::Scheduler(threads, use_caller, name)\<close>, building the object at \<open>this\<close>.
  With \<open>use_caller\<close> the caller's main fiber is initialised (at \<open>fresh_main\<close> if it has to
  be created), the scheduler becomes the thread's scheduler, and the dispatch fiber
  \<open>m_rootCor\<close> is built at \<open>fresh_root\<close> with \<open>Scheduler::run\<close> as its entry (its third
  constructor argument has no counterpart in m_cor.cpp). The source's next statement,
  \<open>t_scheduler_cor = m_rootThread.get()\<close>, takes a member of an \<open>int\<close> and assigns
  nothing that could be modelled; \<open>m_rootThread\<close> then receives \<open>event::GetCorId()\<close>
  (taken to be \<open>Cor::GetCorId\<close>), a 64-bit id converted to \<open>int\<close>.
\<close>

definition Scheduler_ctor ::
  "world \<Rightarrow> addr \<Rightarrow> addr \<Rightarrow> addr \<Rightarrow> addr option \<Rightarrow> 32 word \<Rightarrow> addr option \<Rightarrow>
   nat \<Rightarrow> bool \<Rightarrow> string \<Rightarrow> error + (world \<times> Scheduler)" where
  "Scheduler_ctor w this fresh_main fresh_root stack cfg rootFiber0 threads use_caller name =
     (if \<not> threads > 0 then Inl AssertFail
      else
        (let s = (Scheduler_init rootFiber0)\<lparr>m_useCaller := use_caller, m_name := name\<rparr> in
         if use_caller then
           (case GetThis w fresh_main of
              Inl e \<Rightarrow> Inl e
            | Inr (p, w1) \<Rightarrow>
                if t_scheduler w1 \<noteq> None then Inl AssertFail
                else
                  (let w2 = w1\<lparr>t_scheduler := Some this\<rparr>;
                       w3 = Cor_ctor w2 fresh_root stack cfg (Some SchedulerRun) 0
                   in case GetCorId w3 of
                        Inl e \<Rightarrow> Inl e
                      | Inr i \<Rightarrow>
                          (let rt = sint (ucast i :: 32 word) in
                           Inr (w3, s\<lparr>m_rootCor := Some fresh_root,
                                     m_rootThread := rt,
                                     m_threadIds := m_threadIds s @ [rt],
                                     m_threadCount := threads - 1\<rparr>))))
         else Inr (w, s\<lparr>m_rootThread := - 1, m_threadCount := threads\<rparr>)))"

text \<open>
  \<open>Scheduler::start\<close>: nothing when already stopping; otherwise \<open>m_threadCount\<close> threads
  are created, named \<open>name_i\<close>, and their ids recorded. \<open>ids i\<close> is the id the system
  gives the i-th thread and \<open>to_string\<close> the decimal representation.
\<close>

definition start :: "(nat \<Rightarrow> int) \<Rightarrow> (nat \<Rightarrow> string) \<Rightarrow> Scheduler \<Rightarrow> error + Scheduler" where
  "start ids to_string s =
     (if m_stopping s then Inr s
      else if m_threads s \<noteq> [] then Inl AssertFail
      else
        (let thrs = map (\<lambda>i. \<lparr>t_name = m_name s @ ''_'' @ to_string i, t_id = ids i\<rparr>)
                      [0 ..< m_threadCount s]
         in Inr (s\<lparr>m_threads := thrs, m_threadIds := m_threadIds s @ map t_id thrs\<rparr>)))"

text \<open>
  \<open>Scheduler::stop\<close> from its entry to the last \<open>tickle()\<close>: nothing when \<open>stopping()\<close>
  holds already (the result is then \<open>None\<close>: \<open>stop\<close> returns at once); otherwise the flag
  is set, the calling thread is checked, \<open>tickle()\<close> is called once for each of the
  \<open>m_threadCount\<close> threads and once more when \<open>m_rootFiber\<close> is not null.
\<close>

definition stop_signal :: "world \<Rightarrow> addr \<Rightarrow> Scheduler \<Rightarrow> error + Scheduler option" where
  "stop_signal w this s =
     (if stopping s then Inr None
      else
        (let s1 = s\<lparr>m_stopping := True\<rparr> in
         if (if m_useCaller s1 then t_scheduler w \<noteq> Some this else \<not> t_scheduler w \<noteq> Some this)
         then Inl AssertFail
         else
           (let s2 = (tickle ^^ m_threadCount s1) s1;
                s3 = (if m_rootFiber s2 \<noteq> None then tickle s2 else s2)
            in Inr (Some s3))))"

text \<open>
  The whole of \<open>Scheduler::stop\<close>. After the tickles, a dispatch fiber \<open>m_rootCor\<close> is
  resumed; \<open>rootrun\<close> is what happens from there until control is back in \<open>stop\<close>. Then
  the worker threads are swapped out of \<open>m_threads\<close> and joined in order.
\<close>

definition stop ::
  "(world \<Rightarrow> Scheduler \<Rightarrow> error + (world \<times> Scheduler)) \<Rightarrow>
   world \<Rightarrow> addr \<Rightarrow> Scheduler \<Rightarrow> error + (world \<times> Scheduler)" where
  "stop rootrun w this s =
     (case stop_signal w this s of
        Inl e \<Rightarrow> Inl e
      | Inr None \<Rightarrow> Inr (w, s)
      | Inr (Some s3) \<Rightarrow>
          (case (case m_rootCor s3 of
                   None \<Rightarrow> Inr (w, s3)
                 | Some r \<Rightarrow>
                     (case Cor_resume w r of Inl e \<Rightarrow> Inl e | Inr w1 \<Rightarrow> rootrun w1 s3)) of
             Inl e \<Rightarrow> Inl e
           | Inr (w2, s4) \<Rightarrow>
               (let thrs = m_threads s4 in
                Inr (w2, s4\<lparr>m_threads := [],
                           effects := effects s4 @ map (\<lambda>t. Join (t_id t)) thrs\<rparr>))))"


subsection \<open>The dispatch loop\<close>

text \<open>
  The scan of \<open>Scheduler::run\<close> over \<open>m_tasks\<close>, under the mutex. \<open>pre\<close> holds the
  entries the iterator has passed, \<open>tickle_me\<close> the flag so far. A task pinned to another
  thread is skipped and sets the flag; the first other task is checked by the two
  assertions, erased and returned, and the flag is also set when the iterator is not at
  the end after the erasure. The result is the task taken (if any), the queue left, and
  the flag.
\<close>

fun scan_tasks ::
  "(addr \<Rightarrow> Cor option) \<Rightarrow> int \<Rightarrow> ScheduleTask list \<Rightarrow> ScheduleTask list \<Rightarrow> bool \<Rightarrow>
   error + (ScheduleTask option \<times> ScheduleTask list \<times> bool)" where
  "scan_tasks h tid pre [] tickle_me = Inr (None, pre, tickle_me)"
| "scan_tasks h tid pre (t # rest) tickle_me =
     (if thread t \<noteq> - 1 \<and> thread t \<noteq> tid then scan_tasks h tid (pre @ [t]) rest True
      else if \<not> (cor t \<noteq> None \<or> cb t \<noteq> None) then Inl AssertFail
      else
        (case (case cor t of
                 None \<Rightarrow> Inr ()
               | Some p \<Rightarrow>
                   (case h p of
                      None \<Rightarrow> Inl NullDeref
                    | Some c \<Rightarrow> if m_state c \<noteq> READY then Inl AssertFail else Inr ())) of
           Inl e \<Rightarrow> Inl e
         | Inr _ \<Rightarrow> Inr (Some t, pre @ rest, tickle_me \<or> rest \<noteq> [])))"

text \<open>
  What an entry function does when its fiber is switched in for the n-th time (0: from
  its start): it returns, or it yields. User code is a parameter: \<open>user k n\<close> for the
  function labelled \<open>k\<close>. \<open>Scheduler::idle\<close> loops \<open>while (!stopping()) yield()\<close>: it
  returns when \<open>stopping()\<close> holds, and yields otherwise. A nested \<open>Scheduler::run\<close> is
  outside this model.
\<close>

datatype outcome = Returns | Yields

definition run_entry ::
  "(nat \<Rightarrow> nat \<Rightarrow> outcome) \<Rightarrow> bool \<Rightarrow> func \<Rightarrow> nat \<Rightarrow> error + outcome" where
  "run_entry user stp f n =
     (case f of
        UserFn k \<Rightarrow> Inr (user k n)
      | SchedulerIdle \<Rightarrow> Inr (if stp then Returns else Yields)
      | SchedulerRun \<Rightarrow> Inl Unsupported)"

text \<open>
  The fiber that has just been switched in runs until it switches back. From a made
  context this is \<open>Cor::MainFunc\<close>: the current fiber's \<open>m_cb\<close> is called; when it
  returns, \<open>m_cb\<close> is cleared, the state becomes TERM, and the fiber yields. From a
  snapshot taken in \<open>yield()\<close> the entry function continues where it was. An entry
  function that yields calls \<open>yield()\<close> on the current fiber.
\<close>

definition fiber_runs ::
  "(nat \<Rightarrow> nat \<Rightarrow> outcome) \<Rightarrow> bool \<Rightarrow> world \<Rightarrow> error + world" where
  "fiber_runs user stp w =
     (case t_cor w of
        None \<Rightarrow> Inl NullDeref
      | Some p \<Rightarrow>
          (case cors w p of
             None \<Rightarrow> Inl NullDeref
           | Some c \<Rightarrow>
               (case (case pc w of
                        Made l sp sz MainFunc \<Rightarrow> Inr 0
                      | Captured (AtYield q n) \<Rightarrow> if q = p then Inr n else Inl Unsupported
                      | Captured _ \<Rightarrow> Inl Unsupported) of
                  Inl e \<Rightarrow> Inl e
                | Inr n \<Rightarrow>
                    (case m_cb c of
                       None \<Rightarrow> Inl BadFunctionCall
                     | Some f \<Rightarrow>
                         (case run_entry user stp f n of
                            Inl e \<Rightarrow> Inl e
                          | Inr Yields \<Rightarrow> Cor_yield w p (Suc n)
                          | Inr Returns \<Rightarrow>
                              Cor_yield
                                (w\<lparr>cors := (cors w)(p \<mapsto> c\<lparr>m_cb := None, m_state := State.TERM\<rparr>)\<rparr>)
                                p (Suc n))))))"

text \<open>
  \<open>p->resume()\<close> as its caller sees it: the fiber is switched in, runs, and switches
  back; \<open>resume\<close> has returned when the thread executes the snapshot that \<open>resume\<close> took.
\<close>

definition resume_returns ::
  "(nat \<Rightarrow> nat \<Rightarrow> outcome) \<Rightarrow> bool \<Rightarrow> world \<Rightarrow> addr \<Rightarrow> error + world" where
  "resume_returns user stp w p =
     (case Cor_resume w p of
        Inl e \<Rightarrow> Inl e
      | Inr w1 \<Rightarrow>
          (case fiber_runs user stp w1 of
             Inl e \<Rightarrow> Inl e
           | Inr w2 \<Rightarrow> if pc w2 = Captured (AtResume p) then Inr w2 else Inl Unsupported))"

text \<open>The local variables of \<open>Scheduler::run\<close> that live across iterations.\<close>

record worker =
  idle_cor :: addr
  cb_cor :: "addr option"

text \<open>
  The first half of an iteration of the \<open>while (true)\<close> loop of \<open>Scheduler::run\<close>
  on the thread with id \<open>tid\<close>: \<open>task\<close> is reset, the queue is scanned under the
  mutex, a task that is taken counts as an active thread, and \<open>tickle()\<close> is called
  when the scan has set \<open>tickle_me\<close>.
\<close>

definition run_take ::
  "int \<Rightarrow> world \<Rightarrow> Scheduler \<Rightarrow> error + (ScheduleTask \<times> Scheduler)" where
  "run_take tid w s =
     (case scan_tasks (cors w) tid [] (m_tasks s) False of
        Inl e \<Rightarrow> Inl e
      | Inr (found, rest, tickle_me) \<Rightarrow>
          (let task = (case found of None \<Rightarrow> ScheduleTask_empty | Some t \<Rightarrow> t);
               s1 = s\<lparr>m_tasks := rest,
                      m_activeThreadCount :=
                        (if found \<noteq> None then m_activeThreadCount s + 1
                         else m_activeThreadCount s)\<rparr>;
               s2 = (if tickle_me then tickle s1 else s1)
           in Inr (task, s2)))"

text \<open>
  The second half: the task's fiber is resumed; or its function is run in the fiber
  \<open>cb_cor\<close>, which is reset when it exists and built otherwise, and which is released
  (\<open>cb_cor.reset()\<close>, the reset of the shared pointer) when \<open>resume\<close> has returned; or,
  without a task, the idle fiber is resumed, unless it is finished. \<open>fresh\<close> and
  \<open>stack\<close> are the addresses \<open>new\<close> and \<open>malloc\<close> return if a fiber is built. The
  result says whether the loop goes on (\<open>False\<close>: the \<open>break\<close> on a finished idle
  fiber).

  The heap keeps no reference counts. \<open>cb_cor\<close> is the only shared pointer to the
  fiber it holds (the entry functions of this model keep no handle on their fiber), so
  releasing it destroys the fiber: \<open>Cor::~Cor\<close> runs, and its assertion fails on a fiber
  that has yielded instead of finishing. A fiber that arrived in a task is taken to be
  owned by whoever scheduled it as well, and outlives \<open>task.reset()\<close>.
\<close>

definition run_exec ::
  "(nat \<Rightarrow> nat \<Rightarrow> outcome) \<Rightarrow> addr \<Rightarrow> addr option \<Rightarrow> 32 word \<Rightarrow> ScheduleTask \<Rightarrow>
   world \<times> Scheduler \<times> worker \<Rightarrow> error + (bool \<times> world \<times> Scheduler \<times> worker)" where
  "run_exec user fresh stack cfg task st =
     (case st of (w, s2, l) \<Rightarrow>
       (case cor task of
          Some p \<Rightarrow>
            (case resume_returns user (stopping s2) w p of
               Inl e \<Rightarrow> Inl e
             | Inr w1 \<Rightarrow>
                 Inr (True, w1, s2\<lparr>m_activeThreadCount := m_activeThreadCount s2 - 1\<rparr>, l))
        | None \<Rightarrow>
            (case cb task of
               Some f \<Rightarrow>
                 (case (case cb_cor l of
                          Some q \<Rightarrow>
                            (case Cor_reset w q (Some f) of
                               Inl e \<Rightarrow> Inl e
                             | Inr w1 \<Rightarrow> Inr (w1, q))
                        | None \<Rightarrow> Inr (Cor_ctor w fresh stack cfg (Some f) 0, fresh)) of
                    Inl e \<Rightarrow> Inl e
                  | Inr (w1, q) \<Rightarrow>
                      (case resume_returns user (stopping s2) w1 q of
                         Inl e \<Rightarrow> Inl e
                       | Inr w2 \<Rightarrow>
                           (case Cor_dtor w2 q of
                              Inl e \<Rightarrow> Inl e
                            | Inr w3 \<Rightarrow>
                                Inr (True, w3,
                                     s2\<lparr>m_activeThreadCount := m_activeThreadCount s2 - 1\<rparr>,
                                     l\<lparr>cb_cor := None\<rparr>))))
             | None \<Rightarrow>
                 (case cors w (idle_cor l) of
                    None \<Rightarrow> Inl NullDeref
                  | Some ci \<Rightarrow>
                      if m_state ci = State.TERM then Inr (False, w, s2, l)
                      else
                        (let s3 = s2\<lparr>m_idleThreadCount := m_idleThreadCount s2 + 1\<rparr> in
                         case resume_returns user (stopping s3) w (idle_cor l) of
                           Inl e \<Rightarrow> Inl e
                         | Inr w1 \<Rightarrow>
                             Inr (True, w1,
                                  s3\<lparr>m_idleThreadCount := m_idleThreadCount s3 - 1\<rparr>,
                                  l))))))"

text \<open>One iteration of the loop: its two halves.\<close>

definition run_iter ::
  "(nat \<Rightarrow> nat \<Rightarrow> outcome) \<Rightarrow> int \<Rightarrow> addr \<Rightarrow> addr option \<Rightarrow> 32 word \<Rightarrow>
   world \<times> Scheduler \<times> worker \<Rightarrow> error + (bool \<times> world \<times> Scheduler \<times> worker)" where
  "run_iter user tid fresh stack cfg st =
     (case st of (w, s, l) \<Rightarrow>
       (case run_take tid w s of
          Inl e \<Rightarrow> Inl e
        | Inr (task, s2) \<Rightarrow> run_exec user fresh stack cfg task (w, s2, l)))"

text \<open>
  Modelled from the spec: \<open>Scheduler::setThis\<close> is declared in scheduler.h and defined
  nowhere in the source; the spec has, as step 1 of the dispatch loop, "install this
  scheduler as the thread-local current scheduler".
\<close>

definition setThis :: "world \<Rightarrow> addr \<Rightarrow> world" where
  "setThis w this = w\<lparr>t_scheduler := Some this\<rparr>"

text \<open>
  The start of \<open>Scheduler::run\<close> on the thread with id \<open>tid\<close>: \<open>setThis()\<close>, the
  thread's dispatch fiber, the idle fiber (built at \<open>fresh_idle\<close>), and an empty
  \<open>cb_cor\<close>.
\<close>

definition run_enter ::
  "int \<Rightarrow> addr \<Rightarrow> addr \<Rightarrow> addr \<Rightarrow> addr option \<Rightarrow> 32 word \<Rightarrow> world \<times> Scheduler \<Rightarrow>
   error + (world \<times> Scheduler \<times> worker)" where
  "run_enter tid this fresh_main fresh_idle stack cfg st =
     (case st of (w, s) \<Rightarrow>
       (let w1 = setThis w this in
        case (if tid \<noteq> m_rootThread s
              then (case GetThis w1 fresh_main of
                      Inl e \<Rightarrow> Inl e
                    | Inr (p, w2) \<Rightarrow> Inr (w2\<lparr>t_scheduler_cor := Some p\<rparr>))
              else Inr w1) of
          Inl e \<Rightarrow> Inl e
        | Inr w3 \<Rightarrow>
            Inr (Cor_ctor w3 fresh_idle stack cfg (Some SchedulerIdle) 0, s,
                 \<lparr>idle_cor = fresh_idle, cb_cor = None\<rparr>)))"

text \<open>
  The loop of \<open>Scheduler::run\<close>, at most \<open>fuel\<close> iterations; \<open>alloc i\<close> gives the
  addresses for a fiber built when \<open>i\<close> iterations are left. \<open>None\<close>: the loop has not
  ended within the fuel.
\<close>

fun run_loop ::
  "(nat \<Rightarrow> nat \<Rightarrow> outcome) \<Rightarrow> int \<Rightarrow> (nat \<Rightarrow> addr \<times> addr option) \<Rightarrow> 32 word \<Rightarrow> nat \<Rightarrow>
   world \<times> Scheduler \<times> worker \<Rightarrow> (error + (world \<times> Scheduler \<times> worker)) option" where
  "run_loop user tid alloc cfg 0 st = None"
| "run_loop user tid alloc cfg (Suc k) st =
     (case run_iter user tid (fst (alloc k)) (snd (alloc k)) cfg st of
        Inl e \<Rightarrow> Some (Inl e)
      | Inr (go, st1) \<Rightarrow> if go then run_loop user tid alloc cfg k st1 else Some (Inr st1))"


section \<open>IOManager (iomanager.cpp)\<close>

text \<open>
  Modelled from the spec: \<open>enum Event\<close> is declared in iomanager.h, which is missing
  from the source; the spec has \<open>events\<close> as a "bitmask of currently-registered
  interests, subset of {READ, WRITE}". iomanager.cpp passes these masks to \<open>epoll_ctl\<close>
  as they are, so READ is \<open>EPOLLIN\<close> (0x1) and WRITE is \<open>EPOLLOUT\<close> (0x4); NONE is 0.
\<close>

type_synonym Event = "32 word"

definition NONE :: Event where "NONE = 0"
definition READ :: Event where "READ = 1"
definition WRITE :: Event where "WRITE = 4"

definition EPOLLET :: "32 word" where "EPOLLET = 0x80000000"

datatype EpollCtlOp = EPOLL_CTL_ADD | EPOLL_CTL_DEL | EPOLL_CTL_MOD

text \<open>
  \<open>FdContext::EventContext\<close>: the scheduler, the fiber and the function of one event
  (the fields \<open>scheduler\<close>, \<open>cor\<close> and \<open>cb\<close> of the source).
\<close>

record EventContext =
  scheduler :: "addr option"
  ecor :: "addr option"
  ecb :: "func option"

text \<open>
  \<open>struct FdContext\<close>; its members \<open>fd\<close>, \<open>read\<close> and \<open>write\<close> are \<open>ctx_fd\<close>,
  \<open>read_ctx\<close> and \<open>write_ctx\<close> here.
\<close>

record FdContext =
  ctx_fd :: int
  events :: Event
  read_ctx :: EventContext
  write_ctx :: EventContext

text \<open>
  \<open>getEventContext\<close> returns a reference to the \<open>read\<close> or \<open>write\<close> member; the model
  returns which one, and reads and writes through it.
\<close>

datatype slot = ReadSlot | WriteSlot

definition getEventContext :: "Event \<Rightarrow> error + slot" where
  "getEventContext event =
     (if event = READ then Inr ReadSlot
      else if event = WRITE then Inr WriteSlot
      else Inl AssertFail)"

fun slot_get :: "slot \<Rightarrow> FdContext \<Rightarrow> EventContext" where
  "slot_get ReadSlot c = read_ctx c"
| "slot_get WriteSlot c = write_ctx c"

fun slot_set :: "slot \<Rightarrow> EventContext \<Rightarrow> FdContext \<Rightarrow> FdContext" where
  "slot_set ReadSlot ec c = c\<lparr>read_ctx := ec\<rparr>"
| "slot_set WriteSlot ec c = c\<lparr>write_ctx := ec\<rparr>"

definition resetEventContext :: "EventContext \<Rightarrow> EventContext" where
  "resetEventContext ctx = ctx\<lparr>scheduler := None, ecor := None, ecb := None\<rparr>"

text \<open>
  \<open>FdContext::triggerEvent\<close>. \<open>S\<close> holds the scheduler objects by address: the event's
  occupant is scheduled on the scheduler its slot points to.
\<close>

definition triggerEvent ::
  "(addr \<Rightarrow> Scheduler option) \<Rightarrow> FdContext \<Rightarrow> Event \<Rightarrow>
   error + ((addr \<Rightarrow> Scheduler option) \<times> FdContext)" where
  "triggerEvent S c event =
     (if \<not> (events c AND event \<noteq> 0) then Inl AssertFail
      else
        (let c1 = c\<lparr>events := events c AND NOT event\<rparr> in
         case getEventContext event of
           Inl e \<Rightarrow> Inl e
         | Inr sl \<Rightarrow>
             (let ctx = slot_get sl c1 in
              case scheduler ctx of
                None \<Rightarrow> Inl NullDeref
              | Some a \<Rightarrow>
                  (case S a of
                     None \<Rightarrow> Inl NullDeref
                   | Some sch \<Rightarrow>
                       (let sch1 = (if ecb ctx \<noteq> None then schedule sch (OfCb (ecb ctx)) (- 1)
                                    else schedule sch (OfCor (ecor ctx)) (- 1))
                        in Inr (S(a \<mapsto> sch1), slot_set sl (resetEventContext ctx) c1))))))"

text \<open>
  Modelled from the spec: \<open>struct FdContext\<close> and its member initialisers are declared
  in iomanager.h, which is missing from the source; the spec has "an inactive slot has
  all three empty" and asks that "newly created slots start with empty slots". A context
  created by \<open>new FdContext\<close> has no event registered and two empty slots.
\<close>

definition FdContext_new :: FdContext where
  "FdContext_new =
     \<lparr>ctx_fd = 0, events = NONE,
      read_ctx = \<lparr>scheduler = None, ecor = None, ecb = None\<rparr>,
      write_ctx = \<lparr>scheduler = None, ecor = None, ecb = None\<rparr>\<rparr>"

text \<open>
  The members of \<open>IOManager\<close> that \<open>addEvent\<close> and \<open>delEvent\<close> use: the epoll handle,
  the vector of contexts (the source holds pointers, none of them null once
  \<open>contextResize\<close> has run) and the atomic count of pending events, a \<open>size_t\<close>.
\<close>

record IOManager =
  m_epfd :: int
  m_fdContexts :: "FdContext list"
  m_pendingEventCount :: "64 word"

text \<open>The conversion \<open>(int)\<close> of a \<open>size_t\<close>.\<close>

definition int_of_size_t :: "nat \<Rightarrow> int" where
  "int_of_size_t n = sint (word_of_nat n :: 32 word)"

text \<open>
  \<open>IOManager::contextResize\<close>: the vector is resized (cut, or extended by null
  pointers), and every null entry gets a new context whose \<open>fd\<close> is its index.
\<close>

definition contextResize :: "IOManager \<Rightarrow> nat \<Rightarrow> IOManager" where
  "contextResize s n =
     s\<lparr>m_fdContexts :=
         take n (m_fdContexts s) @
         map (\<lambda>i. FdContext_new\<lparr>ctx_fd := int_of_size_t i\<rparr>) [length (m_fdContexts s) ..< n]\<rparr>"

text \<open>
  The first lines of \<open>addEvent\<close>: the context of \<open>fd\<close> is looked up, after the vector
  has been resized to \<open>fd * 1.5\<close> when \<open>(int)m_fdContexts.size() > fd\<close> fails. The
  product is a \<open>double\<close>, converted to \<open>size_t\<close> by truncation.
\<close>

definition find_or_grow :: "IOManager \<Rightarrow> int \<Rightarrow> error + IOManager" where
  "find_or_grow s fd =
     (if int_of_size_t (length (m_fdContexts s)) > fd
      then (if 0 \<le> fd \<and> nat fd < length (m_fdContexts s) then Inr s else Inl OutOfRange)
      else if fd < 0 then Inl Unsupported
      else
        (let s1 = contextResize s (nat ((3 * fd) div 2)) in
         if nat fd < length (m_fdContexts s1) then Inr s1 else Inl OutOfRange))"

text \<open>
  \<open>IOManager::addEvent\<close>. \<open>epoll_ctl\<close> is the system call, a parameter: its result
  for the handle, the operation, the descriptor and the event mask. \<open>fresh\<close> is where
  \<open>Cor::GetThis\<close> builds the thread's main fiber if there is no current fiber;
  \<open>cb_arg\<close> is the parameter \<open>cb\<close>.
\<close>

definition addEvent ::
  "(int \<Rightarrow> EpollCtlOp \<Rightarrow> int \<Rightarrow> 32 word \<Rightarrow> int) \<Rightarrow> addr \<Rightarrow> world \<Rightarrow> IOManager \<Rightarrow>
   int \<Rightarrow> Event \<Rightarrow> func option \<Rightarrow> error + (int \<times> world \<times> IOManager)" where
  "addEvent epoll_ctl fresh w s fd event cb_arg =
     (case find_or_grow s fd of
        Inl e \<Rightarrow> Inl e
      | Inr s1 \<Rightarrow>
          (let fd_ctx = m_fdContexts s1 ! nat fd in
           if events fd_ctx AND event \<noteq> 0 then Inl AssertFail
           else
             (let op = (if events fd_ctx \<noteq> 0 then EPOLL_CTL_MOD else EPOLL_CTL_ADD);
                  rt = epoll_ctl (m_epfd s1) op fd (EPOLLET OR events fd_ctx OR event)
              in if rt \<noteq> 0 then Inr (- 1, w, s1)
                 else
                   (let s2 = s1\<lparr>m_pendingEventCount := m_pendingEventCount s1 + 1\<rparr>;
                        c1 = fd_ctx\<lparr>events := events fd_ctx OR event\<rparr>
                    in case getEventContext event of
                         Inl e \<Rightarrow> Inl e
                       | Inr sl \<Rightarrow>
                           (let event_ctx = slot_get sl c1 in
                            if \<not> (scheduler event_ctx = None \<and> ecor event_ctx = None \<and>
                                    ecb event_ctx = None)
                            then Inl AssertFail
                            else
                              (let ec1 = event_ctx\<lparr>scheduler := t_scheduler w\<rparr> in
                               if cb_arg \<noteq> None
                               then Inr (0, w,
                                      s2\<lparr>m_fdContexts := (m_fdContexts s2)
                                          [nat fd := slot_set sl (ec1\<lparr>ecb := cb_arg\<rparr>) c1]\<rparr>)
                               else
                                 (case GetThis w fresh of
                                    Inl e \<Rightarrow> Inl e
                                  | Inr (p, w1) \<Rightarrow>
                                      (case cors w1 p of
                                         None \<Rightarrow> Inl NullDeref
                                       | Some cp \<Rightarrow>
                                           if m_state cp \<noteq> RUNNING then Inl AssertFail
                                           else Inr (0, w1,
                                                  s2\<lparr>m_fdContexts := (m_fdContexts s2)
                                                      [nat fd :=
                                                         slot_set sl (ec1\<lparr>ecor := Some p\<rparr>) c1]\<rparr>)))))))))"

text \<open>\<open>IOManager::delEvent\<close>.\<close>

definition delEvent ::
  "(int \<Rightarrow> EpollCtlOp \<Rightarrow> int \<Rightarrow> 32 word \<Rightarrow> int) \<Rightarrow> IOManager \<Rightarrow> int \<Rightarrow> Event \<Rightarrow>
   error + (bool \<times> IOManager)" where
  "delEvent epoll_ctl s fd event =
     (if int_of_size_t (length (m_fdContexts s)) \<le> fd then Inr (False, s)
      else if \<not> (0 \<le> fd \<and> nat fd < length (m_fdContexts s)) then Inl OutOfRange
      else
        (let fd_ctx = m_fdContexts s ! nat fd in
         if \<not> (events fd_ctx AND event \<noteq> 0) then Inr (False, s)
         else
           (let new_events = events fd_ctx AND NOT event;
                op = (if new_events \<noteq> 0 then EPOLL_CTL_MOD else EPOLL_CTL_DEL);
                rt = epoll_ctl (m_epfd s) op fd (EPOLLET OR new_events)
            in if rt \<noteq> 0 then Inr (False, s)
               else
                 (let s1 = s\<lparr>m_pendingEventCount := m_pendingEventCount s - 1\<rparr>;
                      c1 = fd_ctx\<lparr>events := new_events\<rparr>
                  in case getEventContext event of
                       Inl e \<Rightarrow> Inl e
                     | Inr sl \<Rightarrow>
                         Inr (True,
                              s1\<lparr>m_fdContexts := (m_fdContexts s1)
                                  [nat fd := slot_set sl (resetEventContext (slot_get sl c1)) c1]\<rparr>)))))"


text \<open>
  \<open>IOManager::IOManager\<close>, as far as these members go: \<open>epfd\<close> is the handle
  \<open>epoll_create\<close> returned; the vector starts with 32 contexts.
\<close>

definition IOManager_ctor :: "int \<Rightarrow> IOManager" where
  "IOManager_ctor epfd =
     contextResize \<lparr>m_epfd = epfd, m_fdContexts = [], m_pendingEventCount = 0\<rparr> 32"

text \<open>
  \<open>m_fdContexts[i]->triggerEvent(event)\<close> seen from the IOManager: the method changes
  the context in place and schedules the occupant; no other member of the IOManager is
  within its reach.
\<close>

definition trigger_at ::
  "(addr \<Rightarrow> Scheduler option) \<Rightarrow> IOManager \<Rightarrow> nat \<Rightarrow> Event \<Rightarrow>
   error + ((addr \<Rightarrow> Scheduler option) \<times> IOManager)" where
  "trigger_at S s i event =
     (if i < length (m_fdContexts s)
      then (case triggerEvent S (m_fdContexts s ! i) event of
              Inl e \<Rightarrow> Inl e
            | Inr (S1, c1) \<Rightarrow> Inr (S1, s\<lparr>m_fdContexts := (m_fdContexts s)[i := c1]\<rparr>))
      else Inl OutOfRange)"

section \<open>Predicates and example states\<close>

text \<open>The number of bits set in an event mask.\<close>

definition popcount :: "32 word \<Rightarrow> nat" where
  "popcount x = length (filter (bit x) [0 ..< 32])"

text \<open>The sum, over the contexts of an IOManager, of the number of registered events.\<close>

definition registered :: "IOManager \<Rightarrow> nat" where
  "registered s = sum_list (map (\<lambda>c. popcount (events c)) (m_fdContexts s))"

text \<open>The pending-event count is that sum.\<close>

definition pending_ok :: "IOManager \<Rightarrow> bool" where
  "pending_ok s = (unat (m_pendingEventCount s) = registered s)"

text \<open>A slot is populated: it has a scheduler and exactly one of fiber and function.\<close>

definition populated :: "EventContext \<Rightarrow> bool" where
  "populated ctx = (scheduler ctx \<noteq> None \<and> ((ecor ctx \<noteq> None) \<noteq> (ecb ctx \<noteq> None)))"

text \<open>A slot is empty: all three of its members are null.\<close>

definition vacant :: "EventContext \<Rightarrow> bool" where
  "vacant ctx = (scheduler ctx = None \<and> ecor ctx = None \<and> ecb ctx = None)"

text \<open>In a context, each of the bits READ and WRITE is set exactly when its slot is populated.\<close>

definition slots_ok :: "FdContext \<Rightarrow> bool" where
  "slots_ok c =
     (((events c AND READ \<noteq> 0) = populated (read_ctx c)) \<and>
      ((events c AND WRITE \<noteq> 0) = populated (write_ctx c)))"

text \<open>A task may run on the thread \<open>tid\<close>: it is pinned to no thread, or to this one.\<close>

definition eligible :: "int \<Rightarrow> ScheduleTask \<Rightarrow> bool" where
  "eligible tid t = (thread t = - 1 \<or> thread t = tid)"

text \<open>
  A task passes the two assertions of the scan: it holds a fiber or a function, and a
  fiber it holds is READY.
\<close>

definition task_ok :: "(addr \<Rightarrow> Cor option) \<Rightarrow> ScheduleTask \<Rightarrow> bool" where
  "task_ok h t =
     ((cor t \<noteq> None \<or> cb t \<noteq> None) \<and>
      (case cor t of
         None \<Rightarrow> True
       | Some p \<Rightarrow> (case h p of None \<Rightarrow> False | Some c \<Rightarrow> m_state c = READY)))"

text \<open>A thread that has created no fiber yet, in a process that has created none.\<close>

definition world0 :: world where
  "world0 = \<lparr>cors = (\<lambda>a. None), e_cor_id = 0, e_cor_count = 0, t_cor = None,
     t_thread_cor = None, t_scheduler = None, t_scheduler_cor = None,
     pc = Captured AtGetcontext\<rparr>"


text \<open>
  The world \<open>w\<close> with the id of the fiber at \<open>p\<close> replaced by \<open>i\<close> and the two
  process-global counters replaced by \<open>k\<close> and \<open>n\<close>: two worlds that agree after such a
  replacement differ in nothing but the identity of that fiber and the counters.
\<close>

definition relab :: "addr \<Rightarrow> 64 word \<Rightarrow> addr \<Rightarrow> Cor \<Rightarrow> Cor" where
  "relab p i q c = (if q = p then c\<lparr>m_id := i\<rparr> else c)"

definition relabel :: "addr \<Rightarrow> 64 word \<Rightarrow> 64 word \<Rightarrow> 64 word \<Rightarrow> world \<Rightarrow> world" where
  "relabel p i k n w =
     w\<lparr>cors := (cors w)(p := map_option (\<lambda>c. c\<lparr>m_id := i\<rparr>) (cors w p)),
       e_cor_id := k, e_cor_count := n\<rparr>"

text \<open>
  The thread after \<open>Cor::GetThis()\<close> (main fiber at address 7); after a fiber with entry
  function 0 has been built at address 8 on a stack at 100; after that fiber has been
  resumed; and after it has been resumed and its entry function has returned.
\<close>

definition world1 :: world where
  "world1 = (case GetThis world0 7 of Inr (p, w) \<Rightarrow> w | Inl e \<Rightarrow> world0)"

definition world2 :: world where
  "world2 = Cor_ctor world1 8 (Some 100) 131072 (Some (UserFn 0)) 0"

definition world3 :: world where
  "world3 = (case Cor_resume world2 8 of Inr w \<Rightarrow> w | Inl e \<Rightarrow> world2)"

definition world4 :: world where
  "world4 =
     (case resume_returns (\<lambda>k n. Returns) False world2 8 of Inr w \<Rightarrow> w | Inl e \<Rightarrow> world2)"

text \<open>
  A scheduler built with one thread and without the caller, at address 1, by the thread
  of \<open>world0\<close>; the same after two functions have been scheduled; and after \<open>stop()\<close>
  has then set the flag and tickled. A scheduler with three tasks, the first and the
  last pinned to thread 5.
\<close>

definition sched0 :: Scheduler where
  "sched0 = (case Scheduler_ctor world0 1 7 8 (Some 100) 131072 None 1 False ''s'' of
               Inr (w, s) \<Rightarrow> s | Inl e \<Rightarrow> Scheduler_init None)"

definition sched2 :: Scheduler where
  "sched2 =
     schedule (schedule sched0 (OfCb (Some (UserFn 0))) (- 1)) (OfCb (Some (UserFn 1))) (- 1)"

definition sched3 :: Scheduler where
  "sched3 = (case stop_signal world0 1 sched2 of Inr (Some s) \<Rightarrow> s | _ \<Rightarrow> sched2)"

definition sched_pinned :: Scheduler where
  "sched_pinned =
     schedule (schedule (schedule sched0 (OfCb (Some (UserFn 0))) 5)
       (OfCb (Some (UserFn 1))) (- 1)) (OfCb (Some (UserFn 2))) 5"

text \<open>
  A worker thread (id 3) of that scheduler that has entered \<open>Scheduler::run\<close>: its main
  fiber is at 7, its idle fiber at 8. Fibers built in the loop go to the addresses
  \<open>alloc0\<close> gives.
\<close>

definition alloc0 :: "nat \<Rightarrow> addr \<times> addr option" where
  "alloc0 k = (20 + k, Some (200 + k))"

definition worker0 :: worker where
  "worker0 = \<lparr>idle_cor = 8, cb_cor = None\<rparr>"

definition world_worker :: world where
  "world_worker = (case run_enter 3 1 7 8 (Some 100) 131072 (world0, sched0) of
                     Inr (w, s, l) \<Rightarrow> w | Inl e \<Rightarrow> world0)"

text \<open>
  An IOManager as its constructor leaves it (epoll handle 3, 32 contexts); the same
  after a worker thread of the scheduler at address 1 has registered function 0 for READ
  on descriptor 5; and the scheduler objects by address.
\<close>

definition iom0 :: IOManager where
  "iom0 = IOManager_ctor 3"

definition iom1 :: IOManager where
  "iom1 = (case addEvent (\<lambda>epfd op fd ev. 0) 9 world_worker iom0 5 READ (Some (UserFn 0)) of
             Inr (r, w, s) \<Rightarrow> s | Inl e \<Rightarrow> iom0)"

definition scheds1 :: "addr \<Rightarrow> Scheduler option" where
  "scheds1 = (\<lambda>a. None)(1 \<mapsto> sched0)"

section \<open>Theorems\<close>

subsection \<open>The example states\<close>

lemma world1_simps:
  "t_cor world1 = Some 7" "t_thread_cor world1 = Some 7" "e_cor_id world1 = 1"
  "e_cor_count world1 = 1" "t_scheduler world1 = None" "pc world1 = Captured AtGetcontext"
  "cors world1 =
     (\<lambda>a. None)(7 \<mapsto> Cor_init\<lparr>m_state := RUNNING, m_ctx := Captured AtGetcontext, m_id := 0\<rparr>)"
  by (simp_all add: world1_def GetThis_def world0_def Cor_main_ctor_def SetThis_def Let_def)

lemma world2_simps:
  "cors world2 =
     (\<lambda>a. None)(7 \<mapsto> Cor_init\<lparr>m_state := RUNNING, m_ctx := Captured AtGetcontext, m_id := 0\<rparr>,
       8 \<mapsto> Cor_init\<lparr>m_id := 1, m_cb := Some (UserFn 0), m_stacksize := 131072,
             m_stack := Some 100, m_ctx := Made None (Some 100) 131072 MainFunc\<rparr>)"
  "t_thread_cor world2 = Some 7" "t_cor world2 = Some 7" "e_cor_id world2 = 2"
  "e_cor_count world2 = 2"
  by (simp_all add: world2_def world1_simps Cor_ctor_def Let_def)

lemma world3_simps:
  "Cor_resume world2 8 = Inr world3"
  "cors world3 8 =
     Some (Cor_init\<lparr>m_id := 1, m_cb := Some (UserFn 0), m_stacksize := 131072,
             m_stack := Some 100, m_ctx := Made None (Some 100) 131072 MainFunc,
             m_state := RUNNING\<rparr>)"
  "cors world3 7 =
     Some (Cor_init\<lparr>m_state := RUNNING, m_ctx := Captured (AtResume 8), m_id := 0\<rparr>)"
  "t_thread_cor world3 = Some 7" "t_cor world3 = Some 8"
  "pc world3 = Made None (Some 100) 131072 MainFunc"
  "e_cor_id world3 = 2" "e_cor_count world3 = 2"
  by (simp_all add: world3_def Cor_resume_def world2_simps Cor_init_def swapcontext_def
        SetThis_def Let_def)

lemma world4_simps:
  "resume_returns (\<lambda>k n. Returns) False world2 8 = Inr world4"
  "cors world4 8 =
     Some (Cor_init\<lparr>m_id := 1, m_cb := None, m_stacksize := 131072, m_stack := Some 100,
             m_ctx := Captured (AtYield 8 1), m_state := State.TERM\<rparr>)"
  "e_cor_id world4 = 2" "e_cor_count world4 = 2"
  by (simp_all add: world4_def resume_returns_def world3_simps fiber_runs_def run_entry_def
        Cor_yield_def swapcontext_def SetThis_def Let_def Cor_init_def)

lemma sched_tasks:
  "m_tasks sched0 = []"
  "m_tasks sched2 = [\<lparr>cor = None, cb = Some (UserFn 0), thread = - 1\<rparr>,
                     \<lparr>cor = None, cb = Some (UserFn 1), thread = - 1\<rparr>]"
  by code_simp+

subsection \<open>Fibers\<close>

text \<open>
  C10. \<open>GetCorId()\<close> returns 0 when the thread's current-fiber pointer is null, and the
  id of the current fiber otherwise; in particular, after \<open>resume()\<close> of a fiber it
  returns that fiber's id. The sentinel 0 is also the id that the first fiber of the
  process receives from the counter \<open>e_cor_id\<close>, whichever constructor builds it.
\<close>

theorem GetCorId_current_fiber:
  "(t_cor w = None \<longrightarrow> GetCorId w = Inr 0) \<and>
   (t_cor w = Some p \<and> cors w p = Some c \<longrightarrow> GetCorId w = Inr (m_id c)) \<and>
   (cors w p = Some c \<and> Cor_resume w p = Inr w' \<longrightarrow> GetCorId w' = Inr (m_id c)) \<and>
   (e_cor_id w = 0 \<longrightarrow>
      map_option m_id (cors (Cor_main_ctor w a) a) = Some 0 \<and>
      map_option m_id (cors (Cor_ctor w a stack cfg f sz) a) = Some 0)"
  by (auto simp: GetCorId_def Cor_resume_def swapcontext_def SetThis_def Let_def
        Cor_main_ctor_def Cor_ctor_def
      split: option.splits if_splits)

theorem GetCorId_current_fiber_witness:
  "GetCorId world0 = Inr 0 \<and>
   GetCorId world1 = Inr 0 \<and>
   GetCorId world3 = Inr 1 \<and>
   map_option m_id (cors (Cor_main_ctor world0 7) 7) = Some 0 \<and>
   map_option m_id (cors (Cor_ctor world0 7 None 131072 None 0) 7) = Some 0"
proof -
  have a: "t_cor world0 = None" "e_cor_id world0 = 0"
    by (simp_all add: world0_def)
  have b: "cors world1 7 =
      Some (Cor_init\<lparr>m_state := RUNNING, m_ctx := Captured AtGetcontext, m_id := 0\<rparr>)"
    by (simp add: world1_simps)
  have c: "cors world2 8 =
      Some (Cor_init\<lparr>m_id := 1, m_cb := Some (UserFn 0), m_stacksize := 131072,
              m_stack := Some 100, m_ctx := Made None (Some 100) 131072 MainFunc\<rparr>)"
    by (simp add: world2_simps)
  show ?thesis
    using GetCorId_current_fiber [of world0 7 Cor_init world0 7 None 131072 None 0] a
      GetCorId_current_fiber [of world1 7 _ world0 7 None 131072 None 0] b
      GetCorId_current_fiber [of world2 8 _ world3 7 None 131072 None 0] c
    by (simp add: Cor_init_def world1_simps world3_simps)
qed

text \<open>
  C7. For a fiber in state RUNNING or TERM, on a thread that has its main fiber,
  \<open>yield()\<close> succeeds: the thread's main fiber is the current fiber afterwards, the
  yielding fiber is READY if it was RUNNING and stays TERM if it was TERM, its context
  holds the point of the yield, no other fiber is touched, and the thread executes the
  context that the main fiber held (the snapshot just taken when the main fiber itself
  yields).
\<close>

theorem yield_to_thread_main:
  assumes "cors w this = Some c"
    and "m_state c = RUNNING \<or> m_state c = State.TERM"
    and "t_thread_cor w = Some m"
    and "cors w m = Some cm"
  shows "\<exists>w'. Cor_yield w this n = Inr w' \<and>
           t_cor w' = Some m \<and>
           cors w' this =
             Some (c\<lparr>m_state := (if m_state c = RUNNING then READY else State.TERM),
                     m_ctx := Captured (AtYield this n)\<rparr>) \<and>
           pc w' = (if m = this then Captured (AtYield this n) else m_ctx cm) \<and>
           (\<forall>q. q \<noteq> this \<longrightarrow> cors w' q = cors w q)"
  using assms
  by (auto simp: Cor_yield_def swapcontext_def SetThis_def Let_def)

theorem yield_to_thread_main_witness:
  "(\<exists>w'. Cor_yield world3 8 0 = Inr w' \<and> t_cor w' = Some 7 \<and>
         map_option m_state (cors w' 8) = Some READY \<and>
         map_option m_ctx (cors w' 8) = Some (Captured (AtYield 8 0)) \<and>
         pc w' = Captured (AtResume 8)) \<and>
   map_option m_state (cors world3 8) = Some RUNNING"
proof -
  let ?c = "Cor_init\<lparr>m_id := 1, m_cb := Some (UserFn 0), m_stacksize := 131072,
             m_stack := Some 100, m_ctx := Made None (Some 100) 131072 MainFunc,
             m_state := RUNNING\<rparr>"
  let ?m = "Cor_init\<lparr>m_state := RUNNING, m_ctx := Captured (AtResume 8), m_id := 0\<rparr>"
  have a: "cors world3 8 = Some ?c" and b: "m_state ?c = RUNNING \<or> m_state ?c = State.TERM"
    and c: "t_thread_cor world3 = Some 7" and d: "cors world3 7 = Some ?m"
    by (simp_all add: world3_simps)
  from yield_to_thread_main [OF a b c d, of 0] obtain w' where
    "Cor_yield world3 8 0 = Inr w'" "t_cor w' = Some 7"
    "cors w' 8 = Some (?c\<lparr>m_state := READY, m_ctx := Captured (AtYield 8 0)\<rparr>)"
    "pc w' = Captured (AtResume 8)"
    by auto
  then show ?thesis
    by (simp add: a)
qed

subsection \<open>Relabelling commutes with the fiber operations\<close>

lemma relab_sel [simp]:
  "m_state (relab p i q c) = m_state c" "m_ctx (relab p i q c) = m_ctx c"
  "m_cb (relab p i q c) = m_cb c" "m_stack (relab p i q c) = m_stack c"
  "m_stacksize (relab p i q c) = m_stacksize c"
  by (simp_all add: relab_def)

lemma relab_upd:
  "(relab p i q c)\<lparr>m_ctx := x\<rparr> = relab p i q (c\<lparr>m_ctx := x\<rparr>)"
  "(relab p i q c)\<lparr>m_state := y\<rparr> = relab p i q (c\<lparr>m_state := y\<rparr>)"
  "(relab p i q c)\<lparr>m_cb := z, m_state := y\<rparr> = relab p i q (c\<lparr>m_cb := z, m_state := y\<rparr>)"
  by (simp_all add: relab_def)

lemma relabel_cors: "cors (relabel p i k n w) q = map_option (relab p i q) (cors w q)"
  by (cases "cors w q") (auto simp: relabel_def relab_def)

lemma relabel_sel:
  "t_cor (relabel p i k n w) = t_cor w"
  "t_thread_cor (relabel p i k n w) = t_thread_cor w"
  "pc (relabel p i k n w) = pc w"
  by (simp_all add: relabel_def)

lemma relabel_SetThis: "SetThis (relabel p i k n w) x = relabel p i k n (SetThis w x)"
  by (simp add: relabel_def SetThis_def)

lemma relabel_put:
  "(relabel p i k n w)\<lparr>cors := (cors (relabel p i k n w))(q \<mapsto> relab p i q c')\<rparr>
   = relabel p i k n (w\<lparr>cors := (cors w)(q \<mapsto> c')\<rparr>)"
  by (auto simp: relabel_def relab_def fun_eq_iff)

lemma relabel_pc: "(relabel p i k n w)\<lparr>pc := x\<rparr> = relabel p i k n (w\<lparr>pc := x\<rparr>)"
  by (simp add: relabel_def)

lemma relabel_swapcontext:
  "swapcontext (relabel p i k n w) pt a b = map_sum id (relabel p i k n) (swapcontext w pt a b)"
proof (cases a)
  case None
  then show ?thesis by (simp add: swapcontext_def)
next
  case (Some x)
  note x = this
  show ?thesis
  proof (cases "cors w x")
    case None
    then show ?thesis by (simp add: swapcontext_def x relabel_cors)
  next
    case (Some ca)
    note ca = this
    let ?w1 = "w\<lparr>cors := (cors w)(x \<mapsto> ca\<lparr>m_ctx := Captured pt\<rparr>)\<rparr>"
    have w1: "(relabel p i k n w)\<lparr>cors := (cors (relabel p i k n w))
                 (x \<mapsto> (relab p i x ca)\<lparr>m_ctx := Captured pt\<rparr>)\<rparr> = relabel p i k n ?w1"
      using relabel_put [of p i k n w x "ca\<lparr>m_ctx := Captured pt\<rparr>"] by (simp add: relab_upd)
    show ?thesis
    proof (cases b)
      case None
      then show ?thesis by (simp add: swapcontext_def x relabel_cors ca Let_def)
    next
      case (Some y)
      show ?thesis
        by (cases "cors ?w1 y")
           (simp_all add: swapcontext_def x Some relabel_cors ca Let_def w1 relabel_pc
              del: fun_upd_apply)
    qed
  qed
qed

lemma relabel_resume:
  "Cor_resume (relabel p i k n w) q = map_sum id (relabel p i k n) (Cor_resume w q)"
proof (cases "cors w q")
  case None
  then show ?thesis by (simp add: Cor_resume_def relabel_cors)
next
  case (Some c)
  have tt: "\<And>z. t_thread_cor ((SetThis w (Some q))\<lparr>cors := z\<rparr>) = t_thread_cor w"
    by (simp add: SetThis_def)
  have cc: "cors (SetThis w (Some q)) = cors w"
    by (simp add: SetThis_def)
  show ?thesis
    using relabel_put [of p i k n "SetThis w (Some q)" q "c\<lparr>m_state := RUNNING\<rparr>"]
    by (simp add: Cor_resume_def relabel_cors Some Let_def relabel_SetThis relab_upd
          relabel_swapcontext relabel_sel tt cc del: fun_upd_apply)
qed

lemma relabel_yield:
  "Cor_yield (relabel p i k n w) q j = map_sum id (relabel p i k n) (Cor_yield w q j)"
proof (cases "cors w q")
  case None
  then show ?thesis by (simp add: Cor_yield_def relabel_cors)
next
  case (Some c)
  have tt: "\<And>z. t_thread_cor ((SetThis w (t_thread_cor w))\<lparr>cors := z\<rparr>) = t_thread_cor w"
    "t_thread_cor (SetThis w (t_thread_cor w)) = t_thread_cor w"
    by (simp_all add: SetThis_def)
  have cc: "cors (SetThis w (t_thread_cor w)) = cors w"
    by (simp add: SetThis_def)
  show ?thesis
    using relabel_put [of p i k n "SetThis w (t_thread_cor w)" q "c\<lparr>m_state := READY\<rparr>"]
    by (simp add: Cor_yield_def relabel_cors Some Let_def relabel_SetThis relab_upd
          relabel_swapcontext relabel_sel tt cc del: fun_upd_apply)
qed

lemma relabel_fiber_runs:
  "fiber_runs user stp (relabel p i k n w) =
   map_sum id (relabel p i k n) (fiber_runs user stp w)"
proof (cases "t_cor w")
  case None
  then show ?thesis by (simp add: fiber_runs_def relabel_sel)
next
  case (Some q)
  note q = this
  show ?thesis
  proof (cases "cors w q")
    case None
    then show ?thesis by (simp add: fiber_runs_def relabel_sel q relabel_cors)
  next
    case (Some c)
    have put: "(relabel p i k n w)\<lparr>cors := (cors (relabel p i k n w))
                 (q \<mapsto> relab p i q (c\<lparr>m_cb := None, m_state := State.TERM\<rparr>))\<rparr>
               = relabel p i k n (w\<lparr>cors := (cors w)(q \<mapsto> c\<lparr>m_cb := None, m_state := State.TERM\<rparr>)\<rparr>)"
      by (rule relabel_put)
    show ?thesis
      by (simp add: fiber_runs_def relabel_sel q relabel_cors Some relab_upd put relabel_yield
            split: ucontext.splits point.splits entry.splits option.splits sum.splits
              outcome.splits
            del: fun_upd_apply)
  qed
qed

lemma relabel_resume_returns:
  "resume_returns user stp (relabel p i k n w) q =
   map_sum id (relabel p i k n) (resume_returns user stp w q)"
  by (simp add: resume_returns_def relabel_resume relabel_fiber_runs relabel_sel
        split: sum.splits)

text \<open>
  C8. For a fiber with a stack, in state TERM, \<open>reset(f)\<close> succeeds; the stack pointer
  and the stack size are the old ones, the state is READY, the entry function is \<open>f\<close>
  and the context is made again for the trampoline on that stack. The world it leaves
  is the one in which the constructor has built a fiber with entry \<open>f\<close> in its place on
  the same stack (with the same stack size), up to the fiber's id and the two global
  counters, which only the constructor draws from. It stays so through the following
  \<open>resume()\<close>, both at the switch into the fiber and when the fiber has run and
  switched back, whatever the entry functions do.
\<close>

theorem reset_then_resume_like_fresh:
  assumes "cors w this = Some c"
    and "m_stack c \<noteq> None"
    and "m_state c = State.TERM"
    and "(ucast (if sz \<noteq> 0 then sz else ucast cfg) :: 32 word) = m_stacksize c"
  shows "\<exists>w1 c1. Cor_reset w this f = Inr w1 \<and> cors w1 this = Some c1 \<and>
           m_stack c1 = m_stack c \<and> m_stacksize c1 = m_stacksize c \<and>
           m_state c1 = READY \<and> m_cb c1 = f \<and>
           m_ctx c1 = Made None (m_stack c) (ucast (m_stacksize c)) MainFunc \<and>
           w1 = relabel this (m_id c) (e_cor_id w) (e_cor_count w)
                  (Cor_ctor w this (m_stack c) cfg f sz) \<and>
           Cor_resume w1 this =
             map_sum id (relabel this (m_id c) (e_cor_id w) (e_cor_count w))
               (Cor_resume (Cor_ctor w this (m_stack c) cfg f sz) this) \<and>
           (\<forall>user stp.
              resume_returns user stp w1 this =
                map_sum id (relabel this (m_id c) (e_cor_id w) (e_cor_count w))
                  (resume_returns user stp (Cor_ctor w this (m_stack c) cfg f sz) this))"
proof -
  let ?c1 = "c\<lparr>m_cb := f, m_ctx := Made None (m_stack c) (ucast (m_stacksize c)) MainFunc,
               m_state := READY\<rparr>"
  let ?w1 = "w\<lparr>cors := (cors w)(this \<mapsto> ?c1)\<rparr>"
  let ?wf = "Cor_ctor w this (m_stack c) cfg f sz"
  have r: "Cor_reset w this f = Inr ?w1"
    using assms(1-3) by (simp add: Cor_reset_def)
  have e: "?w1 = relabel this (m_id c) (e_cor_id w) (e_cor_count w) ?wf"
    using assms(2-4) by (simp add: relabel_def Cor_ctor_def Cor_init_def Let_def fun_eq_iff)
  have c1: "cors ?w1 this = Some ?c1"
    by simp
  have f1: "m_stack ?c1 = m_stack c \<and> m_stacksize ?c1 = m_stacksize c \<and>
      m_state ?c1 = READY \<and> m_cb ?c1 = f \<and>
      m_ctx ?c1 = Made None (m_stack c) (ucast (m_stacksize c)) MainFunc"
    by simp
  have r1: "Cor_resume ?w1 this =
      map_sum id (relabel this (m_id c) (e_cor_id w) (e_cor_count w)) (Cor_resume ?wf this)"
    by (subst e) (rule relabel_resume)
  have r2: "\<forall>user stp. resume_returns user stp ?w1 this =
      map_sum id (relabel this (m_id c) (e_cor_id w) (e_cor_count w))
        (resume_returns user stp ?wf this)"
    by (subst e) (simp add: relabel_resume_returns)
  from r c1 f1 e r1 r2 show ?thesis
    by blast
qed

theorem reset_then_resume_like_fresh_witness:
  "(\<exists>w1. Cor_reset world4 8 (Some (UserFn 1)) = Inr w1 \<and>
      map_option m_state (cors w1 8) = Some READY \<and>
      map_option m_stack (cors w1 8) = Some (Some 100) \<and>
      map_option m_stacksize (cors w1 8) = Some 131072 \<and>
      w1 = relabel 8 1 2 2 (Cor_ctor world4 8 (Some 100) 131072 (Some (UserFn 1)) 0) \<and>
      resume_returns (\<lambda>k n. Returns) False w1 8 =
        map_sum id (relabel 8 1 2 2)
          (resume_returns (\<lambda>k n. Returns) False
             (Cor_ctor world4 8 (Some 100) 131072 (Some (UserFn 1)) 0) 8)) \<and>
   map_option m_state (cors world4 8) = Some State.TERM"
  using reset_then_resume_like_fresh [of world4 8 _ 0 131072 "Some (UserFn 1)"] world4_simps
  by (auto simp: Cor_init_def)

subsection \<open>Scheduler\<close>

text \<open>
  C9. \<open>schedule\<close> of a null task (a null fiber handle, given by value or through a
  pointer, or an empty function) enqueues nothing: \<open>scheduleNoLock\<close> returns the
  scheduler as it was, and the queue after \<open>schedule\<close> is the queue before. No error is
  raised. The only thing \<open>schedule\<close> then does is the \<open>tickle()\<close> it always calls when
  the queue was empty.
\<close>

theorem schedule_null_task:
  "scheduleNoLock s (OfCor None) thr = (m_tasks s = [], s) \<and>
   scheduleNoLock s (OfCorPtr None) thr = (m_tasks s = [], s) \<and>
   scheduleNoLock s (OfCb None) thr = (m_tasks s = [], s) \<and>
   m_tasks (schedule s (OfCor None) thr) = m_tasks s \<and>
   m_tasks (schedule s (OfCorPtr None) thr) = m_tasks s \<and>
   m_tasks (schedule s (OfCb None) thr) = m_tasks s \<and>
   schedule s (OfCor None) thr = (if m_tasks s = [] then tickle s else s) \<and>
   schedule s (OfCorPtr None) thr = (if m_tasks s = [] then tickle s else s) \<and>
   schedule s (OfCb None) thr = (if m_tasks s = [] then tickle s else s)"
  by (simp add: scheduleNoLock_def schedule_def tickle_def Let_def)

theorem schedule_null_task_witness:
  "m_tasks (schedule sched2 (OfCor None) 3) = m_tasks sched2 \<and>
   m_tasks (schedule sched2 (OfCb None) 3) = m_tasks sched2 \<and>
   scheduleNoLock sched2 (OfCorPtr None) 3 = (False, sched2) \<and>
   schedule sched2 (OfCb None) 3 = sched2 \<and>
   schedule sched0 (OfCor None) (- 1) = tickle sched0"
  using schedule_null_task [of sched2 3] schedule_null_task [of sched0 "- 1"]
  by (simp add: sched_tasks)

lemma scan_skip:
  "\<forall>u\<in>set pre. \<not> eligible tid u \<Longrightarrow>
   scan_tasks h tid acc (pre @ r) tk = scan_tasks h tid (acc @ pre) r (tk \<or> pre \<noteq> [])"
  by (induction pre arbitrary: acc tk) (auto simp: eligible_def)

lemma scan_take:
  "eligible tid t \<Longrightarrow> task_ok h t \<Longrightarrow>
   scan_tasks h tid acc (t # post) tk = Inr (Some t, acc @ post, tk \<or> post \<noteq> [])"
  by (auto simp: eligible_def task_ok_def split: option.splits)

lemma scan_abort:
  "eligible tid t \<Longrightarrow> \<not> task_ok h t \<Longrightarrow> \<exists>e. scan_tasks h tid acc (t # post) tk = Inl e"
  by (auto simp: eligible_def task_ok_def split: option.splits)

lemma run_exec_queue:
  assumes "run_exec user fresh stack cfg task (w, s2, l) = Inr (go, w', s', l')"
  shows "m_tasks s' = m_tasks s2 \<and> effects s' = effects s2"
proof (cases "cor task")
  case (Some p)
  with assms show ?thesis
    by (cases "resume_returns user (stopping s2) w p") (auto simp: run_exec_def)
next
  case None
  note nc = this
  show ?thesis
  proof (cases "cb task")
    case (Some f)
    note f = this
    show ?thesis
    proof (cases "cb_cor l")
      case None
      with assms nc f show ?thesis
        by (cases "resume_returns user (stopping s2) (Cor_ctor w fresh stack cfg (Some f) 0) fresh")
           (auto simp: run_exec_def split: sum.splits)
    next
      case (Some q)
      note q = this
      show ?thesis
      proof (cases "Cor_reset w q (Some f)")
        case (Inl e)
        with assms nc f q show ?thesis by (simp add: run_exec_def)
      next
        case (Inr w1)
        with assms nc f q show ?thesis
          by (cases "resume_returns user (stopping s2) w1 q")
             (auto simp: run_exec_def split: sum.splits)
      qed
    qed
  next
    case None
    note nf = this
    show ?thesis
    proof (cases "cors w (idle_cor l)")
      case None
      with assms nc nf show ?thesis by (simp add: run_exec_def)
    next
      case (Some ci)
      with assms nc nf show ?thesis
        by (cases "resume_returns user
                     (stopping (s2\<lparr>m_idleThreadCount := m_idleThreadCount s2 + 1\<rparr>)) w (idle_cor l)")
           (auto simp: run_exec_def Let_def split: if_splits)
    qed
  qed
qed

lemma run_take_queue:
  assumes "run_take tid w s = Inr (task, s2)"
  shows "\<exists>found rest tk. scan_tasks (cors w) tid [] (m_tasks s) False = Inr (found, rest, tk) \<and>
           task = (case found of None \<Rightarrow> ScheduleTask_empty | Some t \<Rightarrow> t) \<and>
           m_tasks s2 = rest \<and> effects s2 = effects s @ (if tk then [Tickle] else [])"
proof (cases "scan_tasks (cors w) tid [] (m_tasks s) False")
  case (Inl e)
  with assms show ?thesis by (simp add: run_take_def)
next
  case (Inr r)
  obtain found rest tk where r: "r = (found, rest, tk)" by (cases r) auto
  from assms have "task = (case found of None \<Rightarrow> ScheduleTask_empty | Some t \<Rightarrow> t)"
    and "m_tasks s2 = rest" and "effects s2 = effects s @ (if tk then [Tickle] else [])"
    by (auto simp: run_take_def Inr r Let_def tickle_def)
  with Inr r show ?thesis by simp
qed

lemma run_iter_queue:
  assumes "run_iter user tid fresh stack cfg (w, s, l) = Inr (go, w', s', l')"
  shows "\<exists>found rest tk. scan_tasks (cors w) tid [] (m_tasks s) False = Inr (found, rest, tk) \<and>
           m_tasks s' = rest \<and> effects s' = effects s @ (if tk then [Tickle] else [])"
proof -
  from assms obtain task s2 where t: "run_take tid w s = Inr (task, s2)"
    and e: "run_exec user fresh stack cfg task (w, s2, l) = Inr (go, w', s', l')"
    by (cases "run_take tid w s") (auto simp: run_iter_def)
  from run_take_queue [OF t] obtain found rest tk where
    a: "scan_tasks (cors w) tid [] (m_tasks s) False = Inr (found, rest, tk)"
    and b: "m_tasks s2 = rest" "effects s2 = effects s @ (if tk then [Tickle] else [])"
    by blast
  from run_exec_queue [OF e] have c: "m_tasks s' = m_tasks s2" "effects s' = effects s2"
    by simp_all
  show ?thesis
    by (rule exI [of _ found], rule exI [of _ rest], rule exI [of _ tk]) (simp add: a b c)
qed

lemma tickle_pow: "(tickle ^^ n) s = s\<lparr>effects := effects s @ replicate n Tickle\<rparr>"
proof (induction n)
  case 0
  show ?case by simp
next
  case (Suc n)
  then show ?case
    by (simp add: tickle_def replicate_append_same)
qed

lemma stop_signal_tickles:
  assumes "stop_signal w this s = Inr (Some s')"
  shows "effects s' =
           effects s @ replicate (m_threadCount s) Tickle @
             (if m_rootFiber s \<noteq> None then [Tickle] else [])"
  using assms
  by (auto simp: stop_signal_def Let_def tickle_pow tickle_def split: if_splits)

lemma run_exec_cb_cor:
  assumes "run_exec user fresh stack cfg task (w, s2, l) = Inr (go, w', s', l')"
    and "cb_cor l = None"
  shows "cb_cor l' = None \<and> idle_cor l' = idle_cor l"
proof (cases "cor task")
  case (Some p)
  with assms show ?thesis
    by (cases "resume_returns user (stopping s2) w p") (auto simp: run_exec_def)
next
  case None
  note nc = this
  show ?thesis
  proof (cases "cb task")
    case (Some f)
    with assms nc show ?thesis
      by (cases "resume_returns user (stopping s2) (Cor_ctor w fresh stack cfg (Some f) 0) fresh")
         (auto simp: run_exec_def split: sum.splits)
  next
    case None
    note nf = this
    show ?thesis
    proof (cases "cors w (idle_cor l)")
      case None
      with assms nc nf show ?thesis by (simp add: run_exec_def)
    next
      case (Some ci)
      with assms nc nf show ?thesis
        by (cases "resume_returns user
                     (stopping (s2\<lparr>m_idleThreadCount := m_idleThreadCount s2 + 1\<rparr>)) w (idle_cor l)")
           (auto simp: run_exec_def Let_def split: if_splits)
    qed
  qed
qed

lemma scan_none:
  "\<forall>u\<in>set q. \<not> eligible tid u \<Longrightarrow>
   scan_tasks h tid acc q tk = Inr (None, acc @ q, tk \<or> q \<noteq> [])"
  using scan_skip [of q tid h acc "[]" tk] by simp

lemma scan_first:
  "\<forall>u\<in>set pre. \<not> eligible tid u \<Longrightarrow> eligible tid t \<Longrightarrow> task_ok h t \<Longrightarrow>
   scan_tasks h tid acc (pre @ t # post) tk =
     Inr (Some t, acc @ pre @ post, tk \<or> pre \<noteq> [] \<or> post \<noteq> [])"
  by (simp add: scan_skip scan_take del: scan_tasks.simps)

lemma scan_first_abort:
  "\<forall>u\<in>set pre. \<not> eligible tid u \<Longrightarrow> eligible tid t \<Longrightarrow> \<not> task_ok h t \<Longrightarrow>
   \<exists>e. scan_tasks h tid acc (pre @ t # post) tk = Inl e"
  by (simp add: scan_skip scan_abort del: scan_tasks.simps)

text \<open>
  C6. The scan of one iteration of the dispatch loop, on any queue and any thread: when
  no task is pinned to -1 or to the thread, nothing is taken and the queue is left as
  it is; otherwise the first such task is taken, provided it passes the loop's two
  assertions, and the queue left is the old one without it, in the old order. The flag
  \<open>tickle_me\<close> is set exactly when a task was skipped or a task follows the one taken,
  that is, when the queue left is not empty. An iteration that completes leaves that
  queue as \<open>m_tasks\<close> and has called \<open>tickle()\<close> once exactly when the flag was set
  (the entry functions of this model schedule nothing themselves).
  When the first such task fails an assertion (it holds neither a fiber nor a function,
  or its fiber is not READY), the scan aborts.
\<close>

theorem dispatch_takes_first_eligible:
  "((\<forall>u\<in>set q. \<not> eligible tid u) \<longrightarrow>
      scan_tasks h tid [] q False = Inr (None, q, q \<noteq> [])) \<and>
   ((\<forall>u\<in>set pre. \<not> eligible tid u) \<and> eligible tid t \<and> task_ok h t \<longrightarrow>
      scan_tasks h tid [] (pre @ t # post) False =
        Inr (Some t, pre @ post, pre \<noteq> [] \<or> post \<noteq> [])) \<and>
   ((\<forall>u\<in>set pre. \<not> eligible tid u) \<and> eligible tid t \<and> m_tasks s = pre @ t # post \<and>
    run_iter user tid fresh stack cfg (w, s, l) = Inr (go, w', s', l') \<longrightarrow>
      m_tasks s' = pre @ post \<and>
      effects s' = effects s @ (if pre \<noteq> [] \<or> post \<noteq> [] then [Tickle] else [])) \<and>
   ((\<forall>u\<in>set (m_tasks s). \<not> eligible tid u) \<and>
    run_iter user tid fresh stack cfg (w, s, l) = Inr (go, w', s', l') \<longrightarrow>
      m_tasks s' = m_tasks s \<and>
      effects s' = effects s @ (if m_tasks s \<noteq> [] then [Tickle] else [])) \<and>
   ((\<forall>u\<in>set pre. \<not> eligible tid u) \<and> eligible tid t \<and> \<not> task_ok h t \<longrightarrow>
      (\<exists>e. scan_tasks h tid [] (pre @ t # post) False = Inl e))"
proof (intro conjI impI)
  assume "\<forall>u\<in>set q. \<not> eligible tid u"
  then show "scan_tasks h tid [] q False = Inr (None, q, q \<noteq> [])"
    by (simp add: scan_none)
next
  assume "(\<forall>u\<in>set pre. \<not> eligible tid u) \<and> eligible tid t \<and> task_ok h t"
  then show "scan_tasks h tid [] (pre @ t # post) False =
      Inr (Some t, pre @ post, pre \<noteq> [] \<or> post \<noteq> [])"
    by (simp add: scan_first del: scan_tasks.simps)
next
  assume a: "(\<forall>u\<in>set pre. \<not> eligible tid u) \<and> eligible tid t \<and> m_tasks s = pre @ t # post \<and>
    run_iter user tid fresh stack cfg (w, s, l) = Inr (go, w', s', l')"
  then obtain found rest tk where
    sc: "scan_tasks (cors w) tid [] (pre @ t # post) False = Inr (found, rest, tk)"
    and r: "m_tasks s' = rest" "effects s' = effects s @ (if tk then [Tickle] else [])"
    using run_iter_queue [of user tid fresh stack cfg w s l go w' s' l'] by auto
  have ok: "task_ok (cors w) t"
  proof (rule ccontr)
    assume "\<not> task_ok (cors w) t"
    with a scan_first_abort [of pre tid t "cors w" "[]" post False] sc show False by auto
  qed
  with a sc have "found = Some t \<and> rest = pre @ post \<and> tk = (pre \<noteq> [] \<or> post \<noteq> [])"
    by (simp add: scan_first del: scan_tasks.simps)
  with r show "m_tasks s' = pre @ post"
    and "effects s' = effects s @ (if pre \<noteq> [] \<or> post \<noteq> [] then [Tickle] else [])"
    by simp_all
next
  assume a: "(\<forall>u\<in>set (m_tasks s). \<not> eligible tid u) \<and>
    run_iter user tid fresh stack cfg (w, s, l) = Inr (go, w', s', l')"
  then obtain found rest tk where
    sc: "scan_tasks (cors w) tid [] (m_tasks s) False = Inr (found, rest, tk)"
    and r: "m_tasks s' = rest" "effects s' = effects s @ (if tk then [Tickle] else [])"
    using run_iter_queue [of user tid fresh stack cfg w s l go w' s' l'] by auto
  from a sc have "rest = m_tasks s \<and> tk = (m_tasks s \<noteq> [])"
    by (auto simp: scan_none)
  with r show "m_tasks s' = m_tasks s"
    and "effects s' = effects s @ (if m_tasks s \<noteq> [] then [Tickle] else [])"
    by simp_all
next
  assume "(\<forall>u\<in>set pre. \<not> eligible tid u) \<and> eligible tid t \<and> \<not> task_ok h t"
  then show "\<exists>e. scan_tasks h tid [] (pre @ t # post) False = Inl e"
    using scan_first_abort [of pre tid t h "[]" post False] by simp
qed

lemma sched_pinned_tasks:
  "m_tasks sched_pinned =
     [\<lparr>cor = None, cb = Some (UserFn 0), thread = 5\<rparr>] @
      \<lparr>cor = None, cb = Some (UserFn 1), thread = - 1\<rparr> #
     [\<lparr>cor = None, cb = Some (UserFn 2), thread = 5\<rparr>]"
  "effects sched_pinned = [Tickle]"
  by code_simp+

lemma run_iter_pinned:
  "case run_iter (\<lambda>k n. Returns) 3 20 (Some 200) 131072 (world_worker, sched_pinned, worker0) of
     Inl e \<Rightarrow> False | Inr r \<Rightarrow> True"
  by code_simp

theorem dispatch_takes_first_eligible_witness:
  "scan_tasks (\<lambda>a. None) 3 [] [\<lparr>cor = None, cb = Some (UserFn 0), thread = 5\<rparr>] False =
     Inr (None, [\<lparr>cor = None, cb = Some (UserFn 0), thread = 5\<rparr>], True) \<and>
   scan_tasks (\<lambda>a. None) 3 [] (m_tasks sched_pinned) False =
     Inr (Some \<lparr>cor = None, cb = Some (UserFn 1), thread = - 1\<rparr>,
          [\<lparr>cor = None, cb = Some (UserFn 0), thread = 5\<rparr>,
           \<lparr>cor = None, cb = Some (UserFn 2), thread = 5\<rparr>], True) \<and>
   (\<exists>go w' s' l'.
      run_iter (\<lambda>k n. Returns) 3 20 (Some 200) 131072 (world_worker, sched_pinned, worker0) =
        Inr (go, w', s', l') \<and>
      m_tasks s' = [\<lparr>cor = None, cb = Some (UserFn 0), thread = 5\<rparr>,
                    \<lparr>cor = None, cb = Some (UserFn 2), thread = 5\<rparr>] \<and>
      effects s' = [Tickle, Tickle]) \<and>
   (\<exists>go w' s' l'.
      run_iter (\<lambda>k n. Returns) 4 20 (Some 200) 131072
        (world_worker, sched_pinned\<lparr>m_tasks := [\<lparr>cor = None, cb = Some (UserFn 0), thread = 5\<rparr>]\<rparr>, worker0) =
        Inr (go, w', s', l') \<and>
      m_tasks s' = [\<lparr>cor = None, cb = Some (UserFn 0), thread = 5\<rparr>] \<and>
      effects s' = [Tickle, Tickle])"
proof -
  let ?a = "\<lparr>cor = None, cb = Some (UserFn 0), thread = 5\<rparr>"
  let ?b = "\<lparr>cor = None, cb = Some (UserFn 1), thread = - 1\<rparr>"
  let ?c = "\<lparr>cor = None, cb = Some (UserFn 2), thread = 5\<rparr>"
  let ?s4 = "sched_pinned\<lparr>m_tasks := [?a]\<rparr>"
  obtain go w' s' l' where r:
    "run_iter (\<lambda>k n. Returns) 3 20 (Some 200) 131072 (world_worker, sched_pinned, worker0) =
       Inr (go, w', s', l')"
    using run_iter_pinned
    by (cases "run_iter (\<lambda>k n. Returns) 3 20 (Some 200) 131072 (world_worker, sched_pinned, worker0)")
       auto
  have "case run_iter (\<lambda>k n. Returns) 4 20 (Some 200) 131072 (world_worker, ?s4, worker0) of
     Inl e \<Rightarrow> False | Inr r \<Rightarrow> True"
    by code_simp
  then obtain go4 w4 s4 l4 where r4:
    "run_iter (\<lambda>k n. Returns) 4 20 (Some 200) 131072 (world_worker, ?s4, worker0) =
       Inr (go4, w4, s4, l4)"
    by (cases "run_iter (\<lambda>k n. Returns) 4 20 (Some 200) 131072 (world_worker, ?s4, worker0)")
       auto
  have e: "\<forall>u\<in>set [?a]. \<not> eligible 3 u" "eligible 3 ?b" "task_ok (\<lambda>a. None) ?b"
     "\<forall>u\<in>set [?a]. \<not> eligible 4 u"
    by (simp_all add: eligible_def task_ok_def)
  show ?thesis
    using dispatch_takes_first_eligible
            [of "[?a]" 3 "\<lambda>a. None" "[?a]" ?b "[?c]" sched_pinned
                "\<lambda>k n. Returns" 20 "Some 200" 131072 world_worker worker0 go w' s' l']
          dispatch_takes_first_eligible
            [of "[?a]" 4 "\<lambda>a. None" "[?a]" ?b "[?c]" ?s4
                "\<lambda>k n. Returns" 20 "Some 200" 131072 world_worker worker0 go4 w4 s4 l4]
          e r r4 sched_pinned_tasks
    by simp
qed

lemma swapcontext_counter:
  "swapcontext w pt a b = Inr w' \<Longrightarrow> e_cor_id w' = e_cor_id w"
  by (auto simp: swapcontext_def Let_def split: option.splits)

lemma resume_counter: "Cor_resume w p = Inr w' \<Longrightarrow> e_cor_id w' = e_cor_id w"
  by (auto simp: Cor_resume_def Let_def SetThis_def split: option.splits if_splits
        dest!: swapcontext_counter)

lemma yield_counter: "Cor_yield w p n = Inr w' \<Longrightarrow> e_cor_id w' = e_cor_id w"
  by (auto simp: Cor_yield_def Let_def SetThis_def split: option.splits if_splits
        dest!: swapcontext_counter)

lemma fiber_runs_counter: "fiber_runs user stp w = Inr w' \<Longrightarrow> e_cor_id w' = e_cor_id w"
  by (auto simp: fiber_runs_def split: option.splits sum.splits outcome.splits
        dest!: yield_counter)

lemma resume_returns_counter:
  "resume_returns user stp w p = Inr w' \<Longrightarrow> e_cor_id w' = e_cor_id w"
  by (auto simp: resume_returns_def split: sum.splits if_splits
        dest!: resume_counter fiber_runs_counter)

lemma dtor_counter:
  "Cor_dtor w p = Inr w' \<Longrightarrow>
   e_cor_id w' = e_cor_id w \<and> e_cor_count w' = e_cor_count w - 1 \<and> cors w' p = None"
  by (auto simp: Cor_dtor_def Let_def SetThis_def split: option.splits if_splits)

lemma run_exec_callback_builds:
  assumes "run_exec user fresh stack cfg task (w, s2, l) = Inr (go, w', s', l')"
    and "cor task = None" and "cb task = Some f" and "cb_cor l = None"
  shows "e_cor_id w' = e_cor_id w + 1 \<and> cb_cor l' = None \<and> cors w' fresh = None"
proof (cases "resume_returns user (stopping s2) (Cor_ctor w fresh stack cfg (Some f) 0) fresh")
  case (Inl e)
  with assms show ?thesis by (simp add: run_exec_def)
next
  case (Inr w2)
  note w2 = this
  from resume_returns_counter [OF Inr] have id: "e_cor_id w2 = e_cor_id w + 1"
    by (simp add: Cor_ctor_def Let_def)
  show ?thesis
  proof (cases "Cor_dtor w2 fresh")
    case (Inl e)
    with assms w2 show ?thesis by (simp add: run_exec_def)
  next
    case (Inr w3)
    from dtor_counter [OF Inr] id have "e_cor_id w3 = e_cor_id w + 1" "cors w3 fresh = None"
      by simp_all
    with assms w2 Inr show ?thesis by (auto simp: run_exec_def)
  qed
qed

lemma stop_without_caller:
  assumes "\<not> stopping s" and "\<not> m_useCaller s" and "t_scheduler w \<noteq> Some this"
    and "m_rootCor s = None"
  shows "stop rootrun w this s =
           Inr (w, s\<lparr>m_stopping := True, m_threads := [],
                     effects := effects s @ replicate (m_threadCount s) Tickle @
                       (if m_rootFiber s \<noteq> None then [Tickle] else []) @
                       map (\<lambda>t. Join (t_id t)) (m_threads s)\<rparr>)"
  using assms
  by (simp add: stop_def stop_signal_def Let_def tickle_pow tickle_def)

text \<open>
  C3. A worker that runs the dispatch loop to its end on a queue of two functions
  builds two wrapper fibers, one for each function: \<open>cb_cor\<close> is null again after
  every function, so the branch that reuses the fiber through \<open>reset\<close> is never taken.
  The first iteration builds a fiber at the first address handed out, with the id after
  the idle fiber's, and destroys it when the function has returned; the second iteration
  builds another, with the next id, and destroys it too. At the end of the loop the
  counter \<open>e_cor_id\<close> has advanced by two, the count of live fibers is what it was, and
  neither fiber is left.
\<close>

theorem two_callbacks_two_fibers:
  "(case run_enter 3 1 7 8 (Some 100) 131072 (world0, sched3) of
      Inl e \<Rightarrow> False
    | Inr st \<Rightarrow>
        (case run_iter (\<lambda>k n. Returns) 3 23 (Some 203) 131072 st of
           Inr (go, w1, s1, l1) \<Rightarrow>
             go \<and> e_cor_id w1 = e_cor_id (fst st) + 1 \<and> cb_cor l1 = None \<and>
             cors w1 23 = None \<and> length (m_tasks s1) = 1 \<and>
             map_option m_id
               (cors (Cor_ctor w1 22 (Some 202) 131072 (Some (UserFn 1)) 0) 22) = Some 3 \<and>
             (case run_iter (\<lambda>k n. Returns) 3 22 (Some 202) 131072 (w1, s1, l1) of
                Inr (go2, w2, s2, l2) \<Rightarrow>
                  go2 \<and> e_cor_id w2 = e_cor_id (fst st) + 2 \<and> cb_cor l2 = None \<and>
                  cors w2 22 = None \<and> m_tasks s2 = []
              | Inl e \<Rightarrow> False)
         | Inl e \<Rightarrow> False) \<and>
        map_option m_id
          (cors (Cor_ctor (fst st) 23 (Some 203) 131072 (Some (UserFn 0)) 0) 23) = Some 2 \<and>
        alloc0 3 = (23, Some 203) \<and> alloc0 2 = (22, Some 202) \<and>
        (case run_loop (\<lambda>k n. Returns) 3 alloc0 131072 4 st of
           Some (Inr (w, s, l)) \<Rightarrow>
             e_cor_id w = e_cor_id (fst st) + 2 \<and>
             e_cor_count w = e_cor_count (fst st) \<and>
             m_tasks s = [] \<and> cb_cor l = None \<and>
             cors w 23 = None \<and> cors w 22 = None
         | _ \<Rightarrow> False))"
  by code_simp

text \<open>
  C2. A scheduler built for two threads with the caller has a dispatch fiber
  \<open>m_rootCor\<close> and one worker thread; \<open>stop()\<close> tickles once, for the worker thread,
  and not a second time for the dispatch fiber. The additional tickle depends on
  \<open>m_rootFiber\<close>, which nothing sets: were it not null, a scheduler built for two
  threads without the caller, which has no dispatch fiber, would be tickled three times.
\<close>

theorem stop_tickles_only_workers:
  "(case Scheduler_ctor world0 1 7 8 (Some 100) 131072 None 2 True ''s'' of
      Inl e \<Rightarrow> False
    | Inr (w, s) \<Rightarrow>
        (case start (\<lambda>i. 1000 + int i) (\<lambda>i. ''0'') s of
           Inl e \<Rightarrow> False
         | Inr s1 \<Rightarrow>
             m_useCaller s1 \<and> m_rootCor s1 = Some 8 \<and> m_threadCount s1 = 1 \<and>
             length (m_threads s1) = 1 \<and>
             (case stop_signal w 1 s1 of
                Inr (Some s2) \<Rightarrow> effects s2 = [Tickle]
              | _ \<Rightarrow> False))) \<and>
   (case Scheduler_ctor world0 1 7 8 (Some 100) 131072 (Some 9) 2 False ''s'' of
      Inl e \<Rightarrow> False
    | Inr (w, s) \<Rightarrow>
        (case start (\<lambda>i. 1000 + int i) (\<lambda>i. ''0'') s of
           Inl e \<Rightarrow> False
         | Inr s1 \<Rightarrow>
             m_rootCor s1 = None \<and> m_threadCount s1 = 2 \<and> length (m_threads s1) = 2 \<and>
             (case stop_signal w 1 s1 of
                Inr (Some s2) \<Rightarrow> effects s2 = [Tickle, Tickle, Tickle]
              | _ \<Rightarrow> False)))"
  by code_simp
subsection \<open>IOManager: event masks\<close>

lemma mask_nz: "READ \<noteq> 0" "WRITE \<noteq> 0" "READ \<noteq> WRITE"
  by (simp_all add: READ_def WRITE_def)

lemma popcount_card: "popcount x = card {n. n < 32 \<and> bit x n}"
proof -
  have "popcount x = card {i. i < length [0..<32] \<and> bit x ([0..<32] ! i)}"
    unfolding popcount_def by (rule length_filter_conv_card)
  also have "{i. i < length [0..<32] \<and> bit x ([0..<32] ! i)} = {n. n < 32 \<and> bit x n}"
    by auto
  finally show ?thesis .
qed


lemma popcount_0: "popcount 0 = 0"
  by (simp add: popcount_card)

lemma bit_READ: "bit READ n = (n = 0)" 
  by (simp add: READ_def bit_simps)

lemma bit_WRITE: "bit WRITE n = (n = 2)"
proof -
  have "(4 :: 32 word) = push_bit 2 1" by simp
  then show ?thesis unfolding WRITE_def by (simp only: bit_simps) auto
qed

lemma mask_other:
  "(x OR READ) AND WRITE = x AND WRITE" "(x OR WRITE) AND READ = x AND READ"
  "(x AND NOT READ) AND WRITE = x AND WRITE" "(x AND NOT WRITE) AND READ = x AND READ"
  for x :: "32 word"
  by (rule bit_word_eqI; auto simp: bit_simps bit_READ bit_WRITE)+

lemma mask_same:
  "(x OR READ) AND READ = READ" "(x OR WRITE) AND WRITE = WRITE"
  "(x AND NOT READ) AND READ = 0" "(x AND NOT WRITE) AND WRITE = 0"
  for x :: "32 word"
  by (rule bit_word_eqI; auto simp: bit_simps bit_READ bit_WRITE)+





subsection \<open>IOManager: what the operations return\<close>

lemma slot_get_events [simp]: "slot_get sl (c\<lparr>events := e\<rparr>) = slot_get sl c"
  by (cases sl) simp_all

lemma events_slot_set [simp]: "events (slot_set sl ec c) = events c"
  by (cases sl) simp_all

lemma slot_get_set [simp]: "slot_get sl (slot_set sl ec c) = ec"
  by (cases sl) simp_all

lemma getEventContext_Inr:
  "getEventContext event = Inr sl \<Longrightarrow>
   (event = READ \<and> sl = ReadSlot) \<or> (event = WRITE \<and> sl = WriteSlot)"
  by (auto simp: getEventContext_def split: if_splits)

lemma vacant_fill:
  "vacant r \<Longrightarrow> r\<lparr>scheduler := x, ecb := y\<rparr> = \<lparr>scheduler = x, ecor = None, ecb = y\<rparr>"
  "vacant r \<Longrightarrow> r\<lparr>scheduler := x, ecor := z\<rparr> = \<lparr>scheduler = x, ecor = z, ecb = None\<rparr>"
  by (cases r; simp add: vacant_def)+

lemma addEvent_cases:
  assumes "addEvent ep fresh w s fd event cb_arg = Inr (r, w', s')"
  obtains
    (failed) s1 where "find_or_grow s fd = Inr s1"
      and "events (m_fdContexts s1 ! nat fd) AND event = 0"
      and "ep (m_epfd s1)
             (if events (m_fdContexts s1 ! nat fd) \<noteq> 0 then EPOLL_CTL_MOD else EPOLL_CTL_ADD) fd
             (EPOLLET OR events (m_fdContexts s1 ! nat fd) OR event) \<noteq> 0"
      and "r = - 1" and "w' = w" and "s' = s1"
  | (added) s1 sl oc where "find_or_grow s fd = Inr s1"
      and "events (m_fdContexts s1 ! nat fd) AND event = 0"
      and "ep (m_epfd s1)
             (if events (m_fdContexts s1 ! nat fd) \<noteq> 0 then EPOLL_CTL_MOD else EPOLL_CTL_ADD) fd
             (EPOLLET OR events (m_fdContexts s1 ! nat fd) OR event) = 0"
      and "getEventContext event = Inr sl"
      and "vacant (slot_get sl (m_fdContexts s1 ! nat fd))"
      and "r = 0"
      and "s' = s1\<lparr>m_pendingEventCount := m_pendingEventCount s1 + 1,
                   m_fdContexts := (m_fdContexts s1)
                     [nat fd := slot_set sl \<lparr>scheduler = t_scheduler w, ecor = oc, ecb = cb_arg\<rparr>
                        ((m_fdContexts s1 ! nat fd)
                           \<lparr>events := events (m_fdContexts s1 ! nat fd) OR event\<rparr>)]\<rparr>"
      and "(cb_arg \<noteq> None \<and> oc = None \<and> w' = w) \<or>
           (cb_arg = None \<and> (\<exists>p cp. oc = Some p \<and> GetThis w fresh = Inr (p, w') \<and>
               cors w' p = Some cp \<and> m_state cp = RUNNING))"
proof (cases "find_or_grow s fd")
  case (Inl e)
  with assms show ?thesis by (simp add: addEvent_def)
next
  case (Inr s1)
  note s1 = this
  let ?c = "m_fdContexts s1 ! nat fd"
  let ?rt = "ep (m_epfd s1) (if events ?c \<noteq> 0 then EPOLL_CTL_MOD else EPOLL_CTL_ADD) fd
             (EPOLLET OR events ?c OR event)"
  have nb: "events ?c AND event = 0"
    using assms by (auto simp: addEvent_def s1 Let_def split: if_splits)
  show ?thesis
  proof (cases "?rt = 0")
    case False
    with assms nb have "r = - 1" "w' = w" "s' = s1"
      by (simp_all add: addEvent_def s1 Let_def)
    with failed [OF s1 nb False] show ?thesis by blast
  next
    case True
    note rt = this
    show ?thesis
    proof (cases "getEventContext event")
      case (Inl e)
      with assms nb rt show ?thesis by (simp add: addEvent_def s1 Let_def)
    next
      case (Inr sl)
      note sl = this
      have vac: "vacant (slot_get sl ?c)"
        using assms nb rt sl by (auto simp: addEvent_def s1 Let_def vacant_def split: if_splits)
      then have vs: "scheduler (slot_get sl ?c) = None" "ecor (slot_get sl ?c) = None"
        "ecb (slot_get sl ?c) = None"
        by (simp_all add: vacant_def)
      note ec = vacant_fill [OF vac]
      show ?thesis
      proof (cases cb_arg)
        case (Some f)
        with assms nb rt sl vs
        have "r = 0" "w' = w"
          "s' = s1\<lparr>m_pendingEventCount := m_pendingEventCount s1 + 1,
                   m_fdContexts := (m_fdContexts s1)
                     [nat fd := slot_set sl \<lparr>scheduler = t_scheduler w, ecor = None, ecb = cb_arg\<rparr>
                        (?c\<lparr>events := events ?c OR event\<rparr>)]\<rparr>"
          by (auto simp: addEvent_def s1 Let_def ec)
        with added [OF s1 nb rt sl vac, of None] Some show ?thesis by blast
      next
        case None
        note cbn = this
        show ?thesis
        proof (cases "GetThis w fresh")
          case (Inl e)
          with assms nb rt sl vac cbn show ?thesis
            by (simp add: addEvent_def s1 Let_def vacant_def)
        next
          case (Inr pw)
          obtain p w1 where pw: "pw = (p, w1)" by (cases pw)
          show ?thesis
          proof (cases "cors w1 p")
            case None
            with assms nb rt sl vac cbn Inr pw show ?thesis
              by (simp add: addEvent_def s1 Let_def vacant_def)
          next
            case (Some cp)
            with assms nb rt sl vs cbn Inr pw
            have "m_state cp = RUNNING" "r = 0" "w' = w1"
              "s' = s1\<lparr>m_pendingEventCount := m_pendingEventCount s1 + 1,
                   m_fdContexts := (m_fdContexts s1)
                     [nat fd := slot_set sl \<lparr>scheduler = t_scheduler w, ecor = Some p, ecb = cb_arg\<rparr>
                        (?c\<lparr>events := events ?c OR event\<rparr>)]\<rparr>"
              by (auto simp: addEvent_def s1 Let_def ec split: if_splits)
            with added [OF s1 nb rt sl vac, of "Some p"] cbn Inr pw Some show ?thesis by blast
          qed
        qed
      qed
    qed
  qed
qed

lemma int_of_size_t_small: "n < 2 ^ 31 \<Longrightarrow> int_of_size_t n = int n"
proof -
  assume a: "n < 2 ^ 31"
  then have u: "uint (word_of_nat n :: 32 word) = int n"
    by (simp add: uint_nat unat_of_nat)
  have "sint (word_of_nat n :: 32 word) = signed_take_bit 31 (uint (word_of_nat n :: 32 word))"
    by (simp add: sint_uint)
  also have "\<dots> = int n"
    unfolding u using a by (intro signed_take_bit_int_eq_self) simp_all
  finally show ?thesis by (simp add: int_of_size_t_def)
qed



lemma resetEventContext_eq:
  "resetEventContext ctx = \<lparr>scheduler = None, ecor = None, ecb = None\<rparr>"
  by (cases ctx) (simp add: resetEventContext_def)

lemma find_or_grow_Inr:
  assumes "find_or_grow s fd = Inr s1"
  shows "0 \<le> fd" "nat fd < length (m_fdContexts s1)" "m_epfd s1 = m_epfd s"
    "m_pendingEventCount s1 = m_pendingEventCount s"
    "\<exists>n. m_fdContexts s1 = take n (m_fdContexts s) @
            map (\<lambda>i. FdContext_new\<lparr>ctx_fd := int_of_size_t i\<rparr>) [length (m_fdContexts s) ..< n]"
proof -
  show "0 \<le> fd" "nat fd < length (m_fdContexts s1)" "m_epfd s1 = m_epfd s"
    "m_pendingEventCount s1 = m_pendingEventCount s"
    using assms by (auto simp: find_or_grow_def contextResize_def Let_def split: if_splits)
  show "\<exists>n. m_fdContexts s1 = take n (m_fdContexts s) @
            map (\<lambda>i. FdContext_new\<lparr>ctx_fd := int_of_size_t i\<rparr>) [length (m_fdContexts s) ..< n]"
  proof (cases "s1 = s")
    case True
    then show ?thesis by (intro exI [of _ "length (m_fdContexts s)"]) simp
  next
    case False
    with assms have "s1 = contextResize s (nat ((3 * fd) div 2))"
      by (auto simp: find_or_grow_def Let_def split: if_splits)
    then show ?thesis by (intro exI [of _ "nat ((3 * fd) div 2)"]) (simp add: contextResize_def)
  qed
qed

lemma find_or_grow_appends:
  assumes "find_or_grow s fd = Inr s1" and "length (m_fdContexts s) < 2 ^ 31"
  shows "\<exists>k. m_fdContexts s1 = m_fdContexts s @
            map (\<lambda>i. FdContext_new\<lparr>ctx_fd := int_of_size_t i\<rparr>)
              [length (m_fdContexts s) ..< length (m_fdContexts s) + k]"
proof (cases "s1 = s")
  case True
  then show ?thesis by (intro exI [of _ 0]) simp
next
  case False
  let ?n = "nat ((3 * fd) div 2)"
  from assms False have r: "s1 = contextResize s ?n" and ge: "int (length (m_fdContexts s)) \<le> fd"
    by (auto simp: find_or_grow_def Let_def int_of_size_t_small split: if_splits)
  from find_or_grow_Inr(2) [OF assms(1)] r
  have "nat fd < length (take ?n (m_fdContexts s)) + (?n - length (m_fdContexts s))"
    by (simp add: contextResize_def)
  with ge have big: "length (m_fdContexts s) \<le> ?n" by (simp add: min_def split: if_splits)
  then have "m_fdContexts s1 = m_fdContexts s @
            map (\<lambda>i. FdContext_new\<lparr>ctx_fd := int_of_size_t i\<rparr>)
              [length (m_fdContexts s) ..< length (m_fdContexts s) + (?n - length (m_fdContexts s))]"
    using r by (simp add: contextResize_def)
  then show ?thesis by blast
qed

lemma delEvent_cases:
  assumes "delEvent ep s fd event = Inr (b, s')"
  obtains
    (unchanged) "b = False" and "s' = s"
  | (removed) sl where "0 \<le> fd" and "nat fd < length (m_fdContexts s)"
      and "events (m_fdContexts s ! nat fd) AND event \<noteq> 0"
      and "getEventContext event = Inr sl"
      and "b = True"
      and "s' = s\<lparr>m_pendingEventCount := m_pendingEventCount s - 1,
                  m_fdContexts := (m_fdContexts s)
                    [nat fd := slot_set sl \<lparr>scheduler = None, ecor = None, ecb = None\<rparr>
                       ((m_fdContexts s ! nat fd)
                          \<lparr>events := events (m_fdContexts s ! nat fd) AND NOT event\<rparr>)]\<rparr>"
proof (cases "b")
  case False
  with assms have "s' = s"
    by (auto simp: delEvent_def Let_def split: if_splits sum.splits)
  with False unchanged show ?thesis by blast
next
  case True
  with assms have a: "0 \<le> fd" "nat fd < length (m_fdContexts s)"
    "events (m_fdContexts s ! nat fd) AND event \<noteq> 0"
    by (auto simp: delEvent_def Let_def split: if_splits)
  show ?thesis
  proof (cases "getEventContext event")
    case (Inl e)
    with assms True show ?thesis by (auto simp: delEvent_def Let_def split: if_splits)
  next
    case (Inr sl)
    with assms True a have
      "s' = s\<lparr>m_pendingEventCount := m_pendingEventCount s - 1,
                  m_fdContexts := (m_fdContexts s)
                    [nat fd := slot_set sl \<lparr>scheduler = None, ecor = None, ecb = None\<rparr>
                       ((m_fdContexts s ! nat fd)
                          \<lparr>events := events (m_fdContexts s ! nat fd) AND NOT event\<rparr>)]\<rparr>"
      by (auto simp: delEvent_def Let_def resetEventContext_eq split: if_splits)
    moreover from True have "b = True" by simp
    ultimately show ?thesis using removed [OF a Inr] by blast
  qed
qed

lemma triggerEvent_cases:
  assumes "triggerEvent S c event = Inr (S', c')"
  obtains sl a sch where "events c AND event \<noteq> 0"
    and "getEventContext event = Inr sl"
    and "scheduler (slot_get sl c) = Some a" and "S a = Some sch"
    and "c' = slot_set sl \<lparr>scheduler = None, ecor = None, ecb = None\<rparr>
                (c\<lparr>events := events c AND NOT event\<rparr>)"
    and "S' = S(a \<mapsto> (if ecb (slot_get sl c) \<noteq> None
                        then schedule sch (OfCb (ecb (slot_get sl c))) (- 1)
                        else schedule sch (OfCor (ecor (slot_get sl c))) (- 1)))"
proof -
  from assms have nb: "events c AND event \<noteq> 0"
    by (auto simp: triggerEvent_def split: if_splits)
  show ?thesis
  proof (cases "getEventContext event")
    case (Inl e)
    with assms nb show ?thesis by (simp add: triggerEvent_def Let_def)
  next
    case (Inr sl)
    note sl = this
    show ?thesis
    proof (cases "scheduler (slot_get sl c)")
      case None
      with assms nb sl show ?thesis by (simp add: triggerEvent_def Let_def)
    next
      case (Some a)
      note a = this
      show ?thesis
      proof (cases "S a")
        case None
        with assms nb sl a show ?thesis by (simp add: triggerEvent_def Let_def)
      next
        case (Some sch)
        with assms nb sl a have
          "c' = slot_set sl \<lparr>scheduler = None, ecor = None, ecb = None\<rparr>
                (c\<lparr>events := events c AND NOT event\<rparr>)"
          "S' = S(a \<mapsto> (if ecb (slot_get sl c) \<noteq> None
                        then schedule sch (OfCb (ecb (slot_get sl c))) (- 1)
                        else schedule sch (OfCor (ecor (slot_get sl c))) (- 1)))"
          by (auto simp: triggerEvent_def Let_def resetEventContext_eq)
        with that [OF nb sl a Some] show ?thesis by blast
      qed
    qed
  qed
qed

lemma GetThis_t_cor: "GetThis w fresh = Inr (p, w') \<Longrightarrow> t_cor w' = Some p"
  by (auto simp: GetThis_def Let_def Cor_main_ctor_def SetThis_def split: option.splits if_splits)

lemma find_or_grow_nth:
  assumes "find_or_grow s fd = Inr s1" and "length (m_fdContexts s) < 2 ^ 31"
  shows "m_fdContexts s1 ! nat fd =
           (if nat fd < length (m_fdContexts s) then m_fdContexts s ! nat fd
            else FdContext_new\<lparr>ctx_fd := int_of_size_t (nat fd)\<rparr>)"
proof -
  from find_or_grow_appends [OF assms] obtain k where
    k: "m_fdContexts s1 = m_fdContexts s @
       map (\<lambda>i. FdContext_new\<lparr>ctx_fd := int_of_size_t i\<rparr>)
         [length (m_fdContexts s) ..< length (m_fdContexts s) + k]"
    by blast
  from find_or_grow_Inr(2) [OF assms(1)] k
  have "nat fd < length (m_fdContexts s) + k" by simp
  then show ?thesis unfolding k by (simp add: nth_append)
qed

lemma find_or_grow_total:
  assumes "length (m_fdContexts s) < 2 ^ 31" "0 \<le> fd"
    and "nat fd < length (m_fdContexts s) \<or> 2 \<le> fd"
  shows "\<exists>s1. find_or_grow s fd = Inr s1"
proof (cases "nat fd < length (m_fdContexts s)")
  case True
  with assms(2) have "fd < int (length (m_fdContexts s))" by linarith
  with True assms(1,2) show ?thesis
    by (simp add: find_or_grow_def int_of_size_t_small)
next
  case False
  with assms(3) have "2 \<le> fd" by simp
  then have big: "nat fd < nat ((3 * fd) div 2)" by linarith
  from False assms(2) have "\<not> fd < int (length (m_fdContexts s))" by linarith
  with False assms(1,2) big show ?thesis
    by (simp add: find_or_grow_def int_of_size_t_small contextResize_def Let_def)
qed

lemma IOManager_eq:
  "m_epfd a = m_epfd b \<Longrightarrow> m_pendingEventCount a = m_pendingEventCount b \<Longrightarrow>
   a = b\<lparr>m_fdContexts := m_fdContexts a\<rparr>" for a b :: IOManager
  by (cases a; cases b) simp


subsection \<open>IOManager: slots and counts\<close>

lemma slots_ok_new: "slots_ok (FdContext_new\<lparr>ctx_fd := i\<rparr>)"
  by (simp add: slots_ok_def FdContext_new_def NONE_def populated_def)

lemma vacant_not_populated: "vacant ec \<Longrightarrow> \<not> populated ec"
  by (simp add: vacant_def populated_def)

lemma vacant_empty: "vacant \<lparr>scheduler = None, ecor = None, ecb = None\<rparr>"
  by (simp add: vacant_def)

lemma slots_ok_added:
  assumes "slots_ok c" "getEventContext event = Inr sl" "populated ec"
  shows "slots_ok (slot_set sl ec (c\<lparr>events := events c OR event\<rparr>))"
  using assms getEventContext_Inr [OF assms(2)]
  by (auto simp: slots_ok_def mask_other mask_same mask_nz)

lemma slots_ok_removed:
  assumes "slots_ok c" "getEventContext event = Inr sl"
  shows "slots_ok (slot_set sl \<lparr>scheduler = None, ecor = None, ecb = None\<rparr>
                    (c\<lparr>events := events c AND NOT event\<rparr>))"
  using assms getEventContext_Inr [OF assms(2)]
  by (auto simp: slots_ok_def mask_other mask_same mask_nz populated_def)

lemma list_all_update:
  "list_all P xs \<Longrightarrow> P y \<Longrightarrow> list_all P (xs[i := y])"
  using set_update_subset_insert [of xs i y] by (auto simp: list_all_iff)

lemma find_or_grow_slots:
  assumes "find_or_grow s fd = Inr s1" "list_all slots_ok (m_fdContexts s)"
  shows "list_all slots_ok (m_fdContexts s1)"
proof -
  from find_or_grow_Inr(5) [OF assms(1)] obtain n where
    "m_fdContexts s1 = take n (m_fdContexts s) @
       map (\<lambda>i. FdContext_new\<lparr>ctx_fd := int_of_size_t i\<rparr>) [length (m_fdContexts s) ..< n]"
    by blast
  moreover have "list_all slots_ok (take n (m_fdContexts s))"
    using assms(2) by (auto simp: list_all_iff dest: in_set_takeD)
  ultimately show ?thesis
    by (auto simp: list_all_iff slots_ok_new)
qed

lemma addEvent_slots:
  assumes "list_all slots_ok (m_fdContexts s)"
    and "addEvent ep fresh w s fd event cb_arg = Inr (r, w', s')"
    and "t_scheduler w \<noteq> None"
  shows "list_all slots_ok (m_fdContexts s')"
    and "r = 0 \<Longrightarrow> \<exists>sl. getEventContext event = Inr sl \<and>
           events (m_fdContexts s' ! nat fd) AND event \<noteq> 0 \<and>
           populated (slot_get sl (m_fdContexts s' ! nat fd))"
proof -
  from assms(2) have "list_all slots_ok (m_fdContexts s') \<and>
     (r = 0 \<longrightarrow> (\<exists>sl. getEventContext event = Inr sl \<and>
           events (m_fdContexts s' ! nat fd) AND event \<noteq> 0 \<and>
           populated (slot_get sl (m_fdContexts s' ! nat fd))))"
  proof (cases rule: addEvent_cases)
    case (failed s1)
    with find_or_grow_slots [OF _ assms(1)] show ?thesis by simp
  next
    case (added s1 sl oc)
    let ?c = "m_fdContexts s1 ! nat fd"
    let ?ec = "\<lparr>scheduler = t_scheduler w, ecor = oc, ecb = cb_arg\<rparr>"
    have ok1: "list_all slots_ok (m_fdContexts s1)"
      using find_or_grow_slots [OF added(1) assms(1)] .
    have len: "nat fd < length (m_fdContexts s1)"
      using find_or_grow_Inr(2) [OF added(1)] .
    have pop: "populated ?ec"
      using added(8) assms(3) by (auto simp: populated_def)
    have "slots_ok ?c" using ok1 len by (simp add: list_all_length)
    then have okc: "slots_ok (slot_set sl ?ec (?c\<lparr>events := events ?c OR event\<rparr>))"
      using added(4) pop by (rule slots_ok_added)
    have bit: "events (slot_set sl ?ec (?c\<lparr>events := events ?c OR event\<rparr>)) AND event \<noteq> 0"
      using getEventContext_Inr [OF added(4)] by (auto simp: mask_same mask_nz)
    show ?thesis
      using added(4,7) ok1 okc len pop bit by (auto simp: list_all_update)
  qed
  then show "list_all slots_ok (m_fdContexts s')"
    and "r = 0 \<Longrightarrow> \<exists>sl. getEventContext event = Inr sl \<and>
           events (m_fdContexts s' ! nat fd) AND event \<noteq> 0 \<and>
           populated (slot_get sl (m_fdContexts s' ! nat fd))"
    by blast+
qed

lemma delEvent_slots:
  assumes "list_all slots_ok (m_fdContexts s)"
    and "delEvent ep s fd event = Inr (b, s')"
  shows "list_all slots_ok (m_fdContexts s')"
    and "b \<Longrightarrow> \<exists>sl. getEventContext event = Inr sl \<and>
           events (m_fdContexts s' ! nat fd) AND event = 0 \<and>
           vacant (slot_get sl (m_fdContexts s' ! nat fd))"
proof -
  from assms(2) have "list_all slots_ok (m_fdContexts s') \<and>
     (b \<longrightarrow> (\<exists>sl. getEventContext event = Inr sl \<and>
           events (m_fdContexts s' ! nat fd) AND event = 0 \<and>
           vacant (slot_get sl (m_fdContexts s' ! nat fd))))"
  proof (cases rule: delEvent_cases)
    case unchanged
    with assms(1) show ?thesis by simp
  next
    case (removed sl)
    let ?c = "m_fdContexts s ! nat fd"
    have "slots_ok ?c" using assms(1) removed(2) by (simp add: list_all_length)
    then have okc: "slots_ok (slot_set sl \<lparr>scheduler = None, ecor = None, ecb = None\<rparr>
                    (?c\<lparr>events := events ?c AND NOT event\<rparr>))"
      using removed(4) by (rule slots_ok_removed)
    have bit: "(events ?c AND NOT event) AND event = 0"
      using getEventContext_Inr [OF removed(4)] by (auto simp: mask_same)
    show ?thesis
      using removed(2,4,6) assms(1) okc bit by (auto simp: list_all_update vacant_empty)
  qed
  then show "list_all slots_ok (m_fdContexts s')"
    and "b \<Longrightarrow> \<exists>sl. getEventContext event = Inr sl \<and>
           events (m_fdContexts s' ! nat fd) AND event = 0 \<and>
           vacant (slot_get sl (m_fdContexts s' ! nat fd))"
    by blast+
qed

lemma trigger_at_cases:
  assumes "trigger_at S s i event = Inr (S', s')"
  obtains c' where "i < length (m_fdContexts s)"
    and "triggerEvent S (m_fdContexts s ! i) event = Inr (S', c')"
    and "s' = s\<lparr>m_fdContexts := (m_fdContexts s)[i := c']\<rparr>"
  using assms
  by (auto simp: trigger_at_def split: if_splits sum.splits)

lemma trigger_at_slots:
  assumes "list_all slots_ok (m_fdContexts s)"
    and "trigger_at S s i event = Inr (S', s')"
  shows "list_all slots_ok (m_fdContexts s') \<and>
         (\<exists>sl a sch. getEventContext event = Inr sl \<and>
            events (m_fdContexts s' ! i) AND event = 0 \<and>
            vacant (slot_get sl (m_fdContexts s' ! i)) \<and>
            scheduler (slot_get sl (m_fdContexts s ! i)) = Some a \<and> S a = Some sch \<and>
            S' = S(a \<mapsto> (if ecb (slot_get sl (m_fdContexts s ! i)) \<noteq> None
                          then schedule sch (OfCb (ecb (slot_get sl (m_fdContexts s ! i)))) (- 1)
                          else schedule sch (OfCor (ecor (slot_get sl (m_fdContexts s ! i)))) (- 1))))"
proof -
  from assms(2) obtain c' where i: "i < length (m_fdContexts s)"
    and t: "triggerEvent S (m_fdContexts s ! i) event = Inr (S', c')"
    and s': "s' = s\<lparr>m_fdContexts := (m_fdContexts s)[i := c']\<rparr>"
    by (rule trigger_at_cases)
  let ?c = "m_fdContexts s ! i"
  from t obtain sl a sch where nb: "events ?c AND event \<noteq> 0"
    and sl: "getEventContext event = Inr sl"
    and a: "scheduler (slot_get sl ?c) = Some a" "S a = Some sch"
    and c': "c' = slot_set sl \<lparr>scheduler = None, ecor = None, ecb = None\<rparr>
                (?c\<lparr>events := events ?c AND NOT event\<rparr>)"
    and S': "S' = S(a \<mapsto> (if ecb (slot_get sl ?c) \<noteq> None
                        then schedule sch (OfCb (ecb (slot_get sl ?c))) (- 1)
                        else schedule sch (OfCor (ecor (slot_get sl ?c))) (- 1)))"
    by (rule triggerEvent_cases)
  have "slots_ok ?c" using assms(1) i by (simp add: list_all_length)
  then have okc: "slots_ok c'" unfolding c' using sl by (rule slots_ok_removed)
  have bit: "events c' AND event = 0"
    unfolding c' using getEventContext_Inr [OF sl] by (auto simp: mask_same)
  have vac: "vacant (slot_get sl c')" unfolding c' by (simp add: vacant_empty)
  have nth: "m_fdContexts s' ! i = c'" using s' i by simp
  have all: "list_all slots_ok (m_fdContexts s')"
    using s' assms(1) okc by (simp add: list_all_update)
  from all sl bit vac a S' nth show ?thesis by auto
qed


lemma registered_append_new:
  "sum_list (map (\<lambda>c. popcount (events c))
     (xs @ map (\<lambda>i. FdContext_new\<lparr>ctx_fd := f i\<rparr>) ys)) =
   sum_list (map (\<lambda>c. popcount (events c)) xs)"
  by (induction ys) (simp_all add: FdContext_new_def NONE_def popcount_0 comp_def)








lemma iom_len: "length (m_fdContexts iom0) = 32" "length (m_fdContexts iom1) = 32"
  by code_simp+

lemma iom_facts:
  "list_all slots_ok (m_fdContexts iom0)"
  "t_scheduler world_worker \<noteq> None"
  "pending_ok iom0"
  "length (m_fdContexts iom0) < 2 ^ 31"
  "pending_ok iom1"
  "length (m_fdContexts iom1) < 2 ^ 31"
proof -
  show "list_all slots_ok (m_fdContexts iom0)" by code_simp
  show "t_scheduler world_worker \<noteq> None" by code_simp
  show "pending_ok iom0" by code_simp
  show "pending_ok iom1" by code_simp
  show "length (m_fdContexts iom0) < 2 ^ 31" "length (m_fdContexts iom1) < 2 ^ 31"
    by (simp_all add: iom_len)
qed

lemma iom1_add: "\<exists>w'. addEvent (\<lambda>epfd op fd ev. 0) 9 world_worker iom0 5 READ (Some (UserFn 0)) =
    Inr (0, w', iom1)"
proof -
  have "case addEvent (\<lambda>epfd op fd ev. 0) 9 world_worker iom0 5 READ (Some (UserFn 0)) of
          Inr (r, w, s) \<Rightarrow> r = 0 | Inl e \<Rightarrow> False"
    by code_simp
  then show ?thesis
    by (auto simp: iom1_def split: sum.splits)
qed

lemma iom1_del: "\<exists>s2. delEvent (\<lambda>epfd op fd ev. 0) iom1 5 READ = Inr (True, s2)"
proof -
  have "case delEvent (\<lambda>epfd op fd ev. 0) iom1 5 READ of Inr (b, s) \<Rightarrow> b | Inl e \<Rightarrow> False"
    by code_simp
  then show ?thesis
    by (auto split: sum.splits)
qed

lemma iom1_trigger: "\<exists>S' s3. trigger_at scheds1 iom1 5 READ = Inr (S', s3)"
proof -
  have "case trigger_at scheds1 iom1 5 READ of Inr r \<Rightarrow> True | Inl e \<Rightarrow> False"
    by code_simp
  then show ?thesis
    by (auto split: sum.splits)
qed

lemma READ_slot: "getEventContext READ = Inr sl \<longleftrightarrow> sl = ReadSlot"
  by (auto simp: getEventContext_def)

subsection \<open>IOManager: the constructor, and what a trigger enqueues\<close>

lemma IOManager_ctor_contexts:
  "m_fdContexts (IOManager_ctor epfd) =
     [] @ map (\<lambda>i. FdContext_new\<lparr>ctx_fd := int_of_size_t i\<rparr>) [0 ..< 32]"
  "m_pendingEventCount (IOManager_ctor epfd) = 0"
  by (simp_all add: IOManager_ctor_def contextResize_def)

lemma IOManager_ctor_ok:
  "pending_ok (IOManager_ctor epfd)" "list_all slots_ok (m_fdContexts (IOManager_ctor epfd))"
  "length (m_fdContexts (IOManager_ctor epfd)) = 32"
proof -
  have "registered (IOManager_ctor epfd) = 0"
    unfolding registered_def IOManager_ctor_contexts(1) registered_append_new by simp
  then show "pending_ok (IOManager_ctor epfd)"
    by (simp add: pending_ok_def IOManager_ctor_contexts(2))
  show "list_all slots_ok (m_fdContexts (IOManager_ctor epfd))"
    unfolding IOManager_ctor_contexts(1) by (simp add: list_all_iff slots_ok_new)
  show "length (m_fdContexts (IOManager_ctor epfd)) = 32"
    unfolding IOManager_ctor_contexts(1) by simp
qed

lemma schedule_occupant:
  assumes "populated ctx"
  shows "m_tasks (if ecb ctx \<noteq> None then schedule sch (OfCb (ecb ctx)) (- 1)
                  else schedule sch (OfCor (ecor ctx)) (- 1)) =
         m_tasks sch @ [\<lparr>cor = ecor ctx, cb = ecb ctx, thread = - 1\<rparr>]"
  using assms
  by (auto simp: populated_def schedule_def scheduleNoLock_def tickle_def Let_def)

lemma slots_ok_populated:
  assumes "slots_ok c" "getEventContext event = Inr sl" "events c AND event \<noteq> 0"
  shows "populated (slot_get sl c)"
  using assms getEventContext_Inr [OF assms(2)] by (auto simp: slots_ok_def)

lemma trigger_at_enqueues:
  assumes "list_all slots_ok (m_fdContexts s)"
    and "trigger_at S s i event = Inr (S', s')"
  shows "\<exists>sl a sch sch'. getEventContext event = Inr sl \<and>
           scheduler (slot_get sl (m_fdContexts s ! i)) = Some a \<and>
           S a = Some sch \<and> S' = S(a \<mapsto> sch') \<and>
           m_tasks sch' = m_tasks sch @
             [\<lparr>cor = ecor (slot_get sl (m_fdContexts s ! i)),
               cb = ecb (slot_get sl (m_fdContexts s ! i)), thread = - 1\<rparr>]"
proof -
  from assms(2) obtain c' where i: "i < length (m_fdContexts s)"
    and t: "triggerEvent S (m_fdContexts s ! i) event = Inr (S', c')"
    by (rule trigger_at_cases)
  let ?c = "m_fdContexts s ! i"
  from t obtain sl a sch where nb: "events ?c AND event \<noteq> 0"
    and sl: "getEventContext event = Inr sl"
    and a: "scheduler (slot_get sl ?c) = Some a" "S a = Some sch"
    and S': "S' = S(a \<mapsto> (if ecb (slot_get sl ?c) \<noteq> None
                        then schedule sch (OfCb (ecb (slot_get sl ?c))) (- 1)
                        else schedule sch (OfCor (ecor (slot_get sl ?c))) (- 1)))"
    by (rule triggerEvent_cases)
  have "slots_ok ?c" using assms(1) i by (simp add: list_all_length)
  then have "populated (slot_get sl ?c)" using sl nb by (rule slots_ok_populated)
  from schedule_occupant [OF this, of sch] sl a S' show ?thesis by blast
qed


subsection \<open>IOManager: the claims\<close>

lemma find_or_grow_exact:
  assumes "find_or_grow s fd = Inr s1" and "length (m_fdContexts s) < 2 ^ 31"
  shows "s1 = (if nat fd < length (m_fdContexts s) then s
               else contextResize s (nat ((3 * fd) div 2)))"
proof (cases "fd < int (length (m_fdContexts s))")
  case True
  with assms show ?thesis
    by (auto simp: find_or_grow_def int_of_size_t_small split: if_splits)
next
  case False
  then have "\<not> nat fd < length (m_fdContexts s)" by linarith
  with False assms show ?thesis
    by (auto simp: find_or_grow_def int_of_size_t_small Let_def split: if_splits)
qed

lemma populated_filled:
  "populated \<lparr>scheduler = a, ecor = (if f = None then Some p else None), ecb = f\<rparr> =
     (a \<noteq> None)"
  by (simp add: populated_def)

text \<open>
  C4 as stated fails in its last clause, and its first is not the whole of what a
  failing call does. On a thread that has no current scheduler (\<open>Scheduler::GetThis()\<close>
  is null on a thread that is not a worker), \<open>addEvent\<close> of the current fiber for WRITE
  on descriptor 6 succeeds: it returns 0, the count is one more and the bit is set, but
  the slot holds no scheduler and is not populated. And a failing \<open>addEvent\<close> on
  descriptor 40, beyond the 32 contexts of the vector, returns -1 with a vector of 60
  contexts.
\<close>

theorem addEvent_success_unpopulated:
  "t_scheduler world1 = None \<and>
   (case addEvent (\<lambda>epfd op fd ev. 0) 9 world1 iom0 6 WRITE None of
      Inr (r, w, s) \<Rightarrow>
        r = 0 \<and> m_pendingEventCount s = m_pendingEventCount iom0 + 1 \<and>
        events (m_fdContexts s ! 6) AND WRITE \<noteq> 0 \<and>
        write_ctx (m_fdContexts s ! 6) = \<lparr>scheduler = None, ecor = Some 7, ecb = None\<rparr> \<and>
        \<not> populated (write_ctx (m_fdContexts s ! 6))
    | Inl e \<Rightarrow> False) \<and>
   (case addEvent (\<lambda>epfd op fd ev. - 1) 9 world_worker iom0 40 WRITE None of
      Inr (r, w, s) \<Rightarrow>
        r = - 1 \<and> length (m_fdContexts iom0) = 32 \<and> length (m_fdContexts s) = 60
    | Inl e \<Rightarrow> False)"
  by code_simp

text \<open>
  C4, amended. Let \<open>c0\<close> be the context of \<open>fd\<close> before the call (the one in the vector,
  or the empty one \<open>addEvent\<close> creates for it) and \<open>rt\<close> the result of the \<open>epoll_ctl\<close>
  call that \<open>addEvent\<close> makes, in a vector of fewer than 2^31 contexts. When that call
  fails on a descriptor that is not negative (and is within the vector, or at least 2, so
  that the resized vector holds it) and whose bit is not yet set, \<open>addEvent\<close> returns
  -1, and the IOManager is as before when \<open>fd\<close> is within the vector, and as
  \<open>contextResize\<close> to \<open>fd * 1.5\<close> has left it otherwise. Whenever \<open>addEvent\<close> returns, the bit was not set
  before; after a failed call the result is -1, the world and the pending-event count
  are unchanged, the context of \<open>fd\<close> is \<open>c0\<close> (so its mask and its slots are what they
  were) and the old contexts are all there unchanged; after a successful call the
  result is 0, the count is one more, the bit is set, and the slot, empty before, holds
  \<open>Scheduler::GetThis()\<close> and the function given or else the current fiber: it is
  populated exactly when the thread has a current scheduler.
\<close>

theorem addEvent_registration_failure:
  assumes "length (m_fdContexts s) < 2 ^ 31"
    and "c0 = (if nat fd < length (m_fdContexts s) then m_fdContexts s ! nat fd
               else FdContext_new\<lparr>ctx_fd := int_of_size_t (nat fd)\<rparr>)"
    and "rt = epoll_ctl (m_epfd s)
                (if events c0 \<noteq> 0 then EPOLL_CTL_MOD else EPOLL_CTL_ADD) fd
                (EPOLLET OR events c0 OR event)"
  shows "(0 \<le> fd \<and> (nat fd < length (m_fdContexts s) \<or> 2 \<le> fd) \<and>
          events c0 AND event = 0 \<and> rt \<noteq> 0 \<longrightarrow>
            addEvent epoll_ctl fresh w s fd event cb_arg =
              Inr (- 1, w,
                   if nat fd < length (m_fdContexts s) then s
                   else contextResize s (nat ((3 * fd) div 2)))) \<and>
         (addEvent epoll_ctl fresh w s fd event cb_arg = Inr (r, w', s') \<longrightarrow>
            events c0 AND event = 0 \<and>
            (rt \<noteq> 0 \<longrightarrow>
               r = - 1 \<and> w' = w \<and> m_pendingEventCount s' = m_pendingEventCount s \<and>
               m_fdContexts s' ! nat fd = c0 \<and>
               take (length (m_fdContexts s)) (m_fdContexts s') = m_fdContexts s \<and>
               s' = (if nat fd < length (m_fdContexts s) then s
                     else contextResize s (nat ((3 * fd) div 2)))) \<and>
            (rt = 0 \<longrightarrow>
               r = 0 \<and> m_pendingEventCount s' = m_pendingEventCount s + 1 \<and>
               events (m_fdContexts s' ! nat fd) = events c0 OR event \<and>
               events (m_fdContexts s' ! nat fd) AND event \<noteq> 0 \<and>
               (\<exists>sl. getEventContext event = Inr sl \<and> vacant (slot_get sl c0) \<and>
                  slot_get sl (m_fdContexts s' ! nat fd) =
                    \<lparr>scheduler = t_scheduler w,
                     ecor = (if cb_arg = None then t_cor w' else None),
                     ecb = cb_arg\<rparr> \<and>
                  populated (slot_get sl (m_fdContexts s' ! nat fd)) =
                    (t_scheduler w \<noteq> None))))"
proof (intro conjI impI)
  assume a: "0 \<le> fd \<and> (nat fd < length (m_fdContexts s) \<or> 2 \<le> fd) \<and>
          events c0 AND event = 0 \<and> rt \<noteq> 0"
  then obtain s1 where s1: "find_or_grow s fd = Inr s1"
    using find_or_grow_total [OF assms(1), of fd] by blast
  have c0: "m_fdContexts s1 ! nat fd = c0"
    using find_or_grow_nth [OF s1 assms(1)] assms(2) by simp
  have ep: "m_epfd s1 = m_epfd s" using find_or_grow_Inr(3) [OF s1] .
  from a have r: "addEvent epoll_ctl fresh w s fd event cb_arg = Inr (- 1, w, s1)"
    using assms(3) by (simp add: addEvent_def s1 c0 ep Let_def)
  with find_or_grow_exact [OF s1 assms(1)]
  show "addEvent epoll_ctl fresh w s fd event cb_arg =
              Inr (- 1, w,
                   if nat fd < length (m_fdContexts s) then s
                   else contextResize s (nat ((3 * fd) div 2)))"
    by simp
next
  assume a: "addEvent epoll_ctl fresh w s fd event cb_arg = Inr (r, w', s')"
  then have "events c0 AND event = 0 \<and>
            (rt \<noteq> 0 \<longrightarrow>
               r = - 1 \<and> w' = w \<and> m_pendingEventCount s' = m_pendingEventCount s \<and>
               m_fdContexts s' ! nat fd = c0 \<and>
               take (length (m_fdContexts s)) (m_fdContexts s') = m_fdContexts s \<and>
               s' = (if nat fd < length (m_fdContexts s) then s
                     else contextResize s (nat ((3 * fd) div 2)))) \<and>
            (rt = 0 \<longrightarrow>
               r = 0 \<and> m_pendingEventCount s' = m_pendingEventCount s + 1 \<and>
               events (m_fdContexts s' ! nat fd) = events c0 OR event \<and>
               events (m_fdContexts s' ! nat fd) AND event \<noteq> 0 \<and>
               (\<exists>sl. getEventContext event = Inr sl \<and> vacant (slot_get sl c0) \<and>
                  slot_get sl (m_fdContexts s' ! nat fd) =
                    \<lparr>scheduler = t_scheduler w,
                     ecor = (if cb_arg = None then t_cor w' else None),
                     ecb = cb_arg\<rparr> \<and>
                  populated (slot_get sl (m_fdContexts s' ! nat fd)) =
                    (t_scheduler w \<noteq> None)))"
  proof (cases rule: addEvent_cases)
    case (failed s1)
    have c0: "m_fdContexts s1 ! nat fd = c0"
      using find_or_grow_nth [OF failed(1) assms(1)] assms(2) by simp
    have ep: "m_epfd s1 = m_epfd s" using find_or_grow_Inr(3) [OF failed(1)] .
    from find_or_grow_appends [OF failed(1) assms(1)] obtain k where
      k: "m_fdContexts s1 = m_fdContexts s @
       map (\<lambda>i. FdContext_new\<lparr>ctx_fd := int_of_size_t i\<rparr>)
         [length (m_fdContexts s) ..< length (m_fdContexts s) + k]"
      by blast
    have ex: "s' = (if nat fd < length (m_fdContexts s) then s
                    else contextResize s (nat ((3 * fd) div 2)))"
      using find_or_grow_exact [OF failed(1) assms(1)] failed(6) by simp
    from failed c0 ep assms(3) find_or_grow_Inr(4) [OF failed(1)] k
    have "events c0 AND event = 0 \<and> rt \<noteq> 0 \<and>
               r = - 1 \<and> w' = w \<and> m_pendingEventCount s' = m_pendingEventCount s \<and>
               m_fdContexts s' ! nat fd = c0 \<and>
               take (length (m_fdContexts s)) (m_fdContexts s') = m_fdContexts s"
      by simp
    with ex show ?thesis by blast
  next
    case (added s1 sl oc)
    have c0: "m_fdContexts s1 ! nat fd = c0"
      using find_or_grow_nth [OF added(1) assms(1)] assms(2) by simp
    have ep: "m_epfd s1 = m_epfd s" using find_or_grow_Inr(3) [OF added(1)] .
    have len: "nat fd < length (m_fdContexts s1)"
      using find_or_grow_Inr(2) [OF added(1)] .
    have oc: "oc = (if cb_arg = None then t_cor w' else None)"
      using added(8) by (auto dest: GetThis_t_cor)
    have oc': "\<exists>p. oc = (if cb_arg = None then Some p else None)"
      using added(8) by auto
    have bit: "(events c0 OR event) AND event \<noteq> 0"
      using getEventContext_Inr [OF added(4)] by (auto simp: mask_same mask_nz)
    from added c0 ep len oc bit assms(3) find_or_grow_Inr(4) [OF added(1)]
    have main: "events c0 AND event = 0 \<and> rt = 0 \<and>
               r = 0 \<and> m_pendingEventCount s' = m_pendingEventCount s + 1 \<and>
               events (m_fdContexts s' ! nat fd) = events c0 OR event \<and>
               events (m_fdContexts s' ! nat fd) AND event \<noteq> 0 \<and>
               getEventContext event = Inr sl \<and> vacant (slot_get sl c0) \<and>
                  slot_get sl (m_fdContexts s' ! nat fd) =
                    \<lparr>scheduler = t_scheduler w, ecor = oc, ecb = cb_arg\<rparr>"
      by (auto simp del: slot_get.simps slot_set.simps)
    from oc' obtain p where "oc = (if cb_arg = None then Some p else None)" by blast
    with main have "populated (slot_get sl (m_fdContexts s' ! nat fd)) =
                    (t_scheduler w \<noteq> None)"
      by (simp add: populated_filled)
    with main oc show ?thesis by auto
  qed
  then show "events c0 AND event = 0"
    and "rt \<noteq> 0 \<Longrightarrow> r = - 1" and "rt \<noteq> 0 \<Longrightarrow> w' = w"
    and "rt \<noteq> 0 \<Longrightarrow> m_pendingEventCount s' = m_pendingEventCount s"
    and "rt \<noteq> 0 \<Longrightarrow> m_fdContexts s' ! nat fd = c0"
    and "rt \<noteq> 0 \<Longrightarrow> take (length (m_fdContexts s)) (m_fdContexts s') = m_fdContexts s"
    and "rt \<noteq> 0 \<Longrightarrow> s' = (if nat fd < length (m_fdContexts s) then s
                     else contextResize s (nat ((3 * fd) div 2)))"
    and "rt = 0 \<Longrightarrow> r = 0"
    and "rt = 0 \<Longrightarrow> m_pendingEventCount s' = m_pendingEventCount s + 1"
    and "rt = 0 \<Longrightarrow> events (m_fdContexts s' ! nat fd) = events c0 OR event"
    and "rt = 0 \<Longrightarrow> events (m_fdContexts s' ! nat fd) AND event \<noteq> 0"
    and "rt = 0 \<Longrightarrow> \<exists>sl. getEventContext event = Inr sl \<and> vacant (slot_get sl c0) \<and>
                  slot_get sl (m_fdContexts s' ! nat fd) =
                    \<lparr>scheduler = t_scheduler w,
                     ecor = (if cb_arg = None then t_cor w' else None),
                     ecb = cb_arg\<rparr> \<and>
                  populated (slot_get sl (m_fdContexts s' ! nat fd)) =
                    (t_scheduler w \<noteq> None)"
    by blast+
qed

theorem addEvent_registration_failure_witness:
  "addEvent (\<lambda>epfd op fd ev. - 1) 9 world_worker iom0 40 WRITE None =
     Inr (- 1, world_worker, contextResize iom0 60) \<and>
   m_pendingEventCount (contextResize iom0 60) = m_pendingEventCount iom0 \<and>
   m_fdContexts (contextResize iom0 60) ! 40 = FdContext_new\<lparr>ctx_fd := 40\<rparr> \<and>
   take 32 (m_fdContexts (contextResize iom0 60)) = m_fdContexts iom0 \<and>
   addEvent (\<lambda>epfd op fd ev. - 1) 9 world_worker iom1 5 WRITE None =
     Inr (- 1, world_worker, iom1) \<and>
   m_pendingEventCount iom1 = m_pendingEventCount iom0 + 1 \<and>
   events (m_fdContexts iom1 ! 5) = READ \<and>
   read_ctx (m_fdContexts iom1 ! 5) =
     \<lparr>scheduler = Some 1, ecor = None, ecb = Some (UserFn 0)\<rparr> \<and>
   populated (read_ctx (m_fdContexts iom1 ! 5))"
proof -
  from iom1_add obtain w' where
    a: "addEvent (\<lambda>epfd op fd ev. 0) 9 world_worker iom0 5 READ (Some (UserFn 0)) =
          Inr (0, w', iom1)" by blast
  let ?c40 = "if nat 40 < length (m_fdContexts iom0) then m_fdContexts iom0 ! nat 40
              else FdContext_new\<lparr>ctx_fd := int_of_size_t (nat 40)\<rparr>"
  let ?c5 = "if nat 5 < length (m_fdContexts iom0) then m_fdContexts iom0 ! nat 5
              else FdContext_new\<lparr>ctx_fd := int_of_size_t (nat 5)\<rparr>"
  let ?d5 = "if nat 5 < length (m_fdContexts iom1) then m_fdContexts iom1 ! nat 5
              else FdContext_new\<lparr>ctx_fd := int_of_size_t (nat 5)\<rparr>"
  have h40: "(0::int) \<le> 40 \<and> (nat 40 < length (m_fdContexts iom0) \<or> (2::int) \<le> 40) \<and>
      events ?c40 AND WRITE = 0"
    and c40: "?c40 = FdContext_new\<lparr>ctx_fd := 40\<rparr>"
    by code_simp+
  have h5: "events ?c5 = 0" "t_scheduler world_worker = Some 1"
    by code_simp+
  have g5: "(0::int) \<le> 5 \<and> (nat 5 < length (m_fdContexts iom1) \<or> (2::int) \<le> 5) \<and>
      events ?d5 AND WRITE = 0"
    and d5: "?d5 = m_fdContexts iom1 ! 5"
    by code_simp+
  have n60: "nat ((3 * 40) div 2) = 60" by simp
  note t40 = addEvent_registration_failure [OF iom_facts(4) refl refl,
        where epoll_ctl = "\<lambda>epfd op fd ev. - 1" and fresh = 9 and w = world_worker and fd = 40
          and event = WRITE and cb_arg = None]
  from t40 [THEN conjunct1] h40
  have e40: "addEvent (\<lambda>epfd op fd ev. - 1) 9 world_worker iom0 40 WRITE None =
      Inr (- 1, world_worker, contextResize iom0 60)"
    by (simp add: iom_len)
  have one: "m_pendingEventCount (contextResize iom0 60) = m_pendingEventCount iom0 \<and>
      m_fdContexts (contextResize iom0 60) ! 40 = FdContext_new\<lparr>ctx_fd := 40\<rparr> \<and>
      take 32 (m_fdContexts (contextResize iom0 60)) = m_fdContexts iom0"
    using t40 [THEN conjunct2, rule_format, OF e40] c40
    by (simp add: iom_len del: upt_Suc)
  note t5 = addEvent_registration_failure [OF iom_facts(6) refl refl,
        where epoll_ctl = "\<lambda>epfd op fd ev. - 1" and fresh = 9 and w = world_worker and fd = 5
          and event = WRITE and cb_arg = None]
  from t5 [THEN conjunct1] g5
  have e5: "addEvent (\<lambda>epfd op fd ev. - 1) 9 world_worker iom1 5 WRITE None =
      Inr (- 1, world_worker, iom1)"
    by (simp add: iom_len)
  have three: "m_pendingEventCount iom1 = m_pendingEventCount iom0 + 1 \<and>
      events (m_fdContexts iom1 ! 5) = READ \<and>
      read_ctx (m_fdContexts iom1 ! 5) =
        \<lparr>scheduler = Some 1, ecor = None, ecb = Some (UserFn 0)\<rparr> \<and>
      populated (read_ctx (m_fdContexts iom1 ! 5))"
    using addEvent_registration_failure [OF iom_facts(4) refl refl,
        where epoll_ctl = "\<lambda>epfd op fd ev. 0" and fresh = 9 and w = world_worker and fd = 5
          and event = READ and cb_arg = "Some (UserFn 0)" and r = 0 and w' = w' and s' = iom1]
      a h5
    by (auto simp: READ_slot)
  from e40 one e5 three show ?thesis by blast
qed

text \<open>
  C5 as stated fails where \<open>addEvent\<close> runs on a thread that has no current scheduler
  (\<open>Scheduler::GetThis()\<close> is null on a thread that is not a worker): from an IOManager
  in which every bit matches its slot, \<open>addEvent\<close> succeeds, sets the READ bit of
  descriptor 5 and leaves the slot without a scheduler, hence not populated.
\<close>

theorem addEvent_without_scheduler:
  "list_all slots_ok (m_fdContexts iom0) \<and> t_scheduler world1 = None \<and>
   (case addEvent (\<lambda>epfd op fd ev. 0) 9 world1 iom0 5 READ (Some (UserFn 0)) of
      Inr (r, w, s) \<Rightarrow>
        r = 0 \<and> events (m_fdContexts s ! 5) AND READ \<noteq> 0 \<and>
        \<not> populated (read_ctx (m_fdContexts s ! 5)) \<and> \<not> slots_ok (m_fdContexts s ! 5)
    | Inl e \<Rightarrow> False)"
  by code_simp

text \<open>
  C5, amended. In an IOManager as its constructor leaves it, each of the bits READ and
  WRITE of every context is set exactly when its slot is populated; and where this
  holds, it holds again after \<open>addEvent\<close> called on a thread that has a current
  scheduler, after \<open>delEvent\<close> and after \<open>triggerEvent\<close>. A successful \<open>addEvent\<close>
  leaves the bit set and the slot populated; a successful \<open>delEvent\<close> leaves the bit
  clear and the slot empty; \<open>triggerEvent\<close> leaves the bit clear and the slot empty and
  has appended the slot's occupant (its function, or else its fiber) to the queue of
  the slot's scheduler.
\<close>

theorem slots_follow_bits:
  "list_all slots_ok (m_fdContexts (IOManager_ctor epfd)) \<and>
   (list_all slots_ok (m_fdContexts s) \<longrightarrow>
      (addEvent epoll_ctl fresh w s fd event cb_arg = Inr (r, w', s1) \<and>
       t_scheduler w \<noteq> None \<longrightarrow>
         list_all slots_ok (m_fdContexts s1) \<and>
         (r = 0 \<longrightarrow>
            (\<exists>sl. getEventContext event = Inr sl \<and>
               events (m_fdContexts s1 ! nat fd) AND event \<noteq> 0 \<and>
               populated (slot_get sl (m_fdContexts s1 ! nat fd))))) \<and>
      (delEvent epoll_ctl s fd event = Inr (b, s2) \<longrightarrow>
         list_all slots_ok (m_fdContexts s2) \<and>
         (b \<longrightarrow>
            (\<exists>sl. getEventContext event = Inr sl \<and>
               events (m_fdContexts s2 ! nat fd) AND event = 0 \<and>
               vacant (slot_get sl (m_fdContexts s2 ! nat fd))))) \<and>
      (trigger_at S s i event = Inr (S', s3) \<longrightarrow>
         list_all slots_ok (m_fdContexts s3) \<and>
         (\<exists>sl a sch sch'. getEventContext event = Inr sl \<and>
            events (m_fdContexts s3 ! i) AND event = 0 \<and>
            vacant (slot_get sl (m_fdContexts s3 ! i)) \<and>
            scheduler (slot_get sl (m_fdContexts s ! i)) = Some a \<and>
            S a = Some sch \<and> S' = S(a \<mapsto> sch') \<and>
            m_tasks sch' = m_tasks sch @
              [\<lparr>cor = ecor (slot_get sl (m_fdContexts s ! i)),
                cb = ecb (slot_get sl (m_fdContexts s ! i)), thread = - 1\<rparr>])))"
proof (intro conjI impI)
  show "list_all slots_ok (m_fdContexts (IOManager_ctor epfd))"
    by (rule IOManager_ctor_ok)
next
  assume inv: "list_all slots_ok (m_fdContexts s)"
  assume a: "addEvent epoll_ctl fresh w s fd event cb_arg = Inr (r, w', s1) \<and>
          t_scheduler w \<noteq> None"
  then show "list_all slots_ok (m_fdContexts s1)"
    using addEvent_slots(1) [OF inv, of epoll_ctl fresh w fd event cb_arg r w' s1] by simp
  assume "r = 0"
  with a show "\<exists>sl. getEventContext event = Inr sl \<and>
                  events (m_fdContexts s1 ! nat fd) AND event \<noteq> 0 \<and>
                  populated (slot_get sl (m_fdContexts s1 ! nat fd))"
    using addEvent_slots(2) [OF inv, of epoll_ctl fresh w fd event cb_arg r w' s1] by simp
next
  assume inv: "list_all slots_ok (m_fdContexts s)"
  assume d: "delEvent epoll_ctl s fd event = Inr (b, s2)"
  then show "list_all slots_ok (m_fdContexts s2)"
    using delEvent_slots(1) [OF inv] by simp
  assume b
  with d show "\<exists>sl. getEventContext event = Inr sl \<and>
                  events (m_fdContexts s2 ! nat fd) AND event = 0 \<and>
                  vacant (slot_get sl (m_fdContexts s2 ! nat fd))"
    using delEvent_slots(2) [OF inv] by simp
next
  assume inv: "list_all slots_ok (m_fdContexts s)"
  assume t: "trigger_at S s i event = Inr (S', s3)"
  from trigger_at_slots [OF inv t]
  show "list_all slots_ok (m_fdContexts s3)" by simp
  from trigger_at_slots [OF inv t] obtain sl where
    sl: "getEventContext event = Inr sl" "events (m_fdContexts s3 ! i) AND event = 0"
      "vacant (slot_get sl (m_fdContexts s3 ! i))"
    by blast
  from trigger_at_enqueues [OF inv t] obtain sl' a sch sch' where
    e: "getEventContext event = Inr sl'"
      "scheduler (slot_get sl' (m_fdContexts s ! i)) = Some a"
      "S a = Some sch" "S' = S(a \<mapsto> sch')"
      "m_tasks sch' = m_tasks sch @
         [\<lparr>cor = ecor (slot_get sl' (m_fdContexts s ! i)),
           cb = ecb (slot_get sl' (m_fdContexts s ! i)), thread = - 1\<rparr>]"
    by blast
  from sl(1) e(1) have "sl' = sl" by simp
  with sl e show "\<exists>sl a sch sch'. getEventContext event = Inr sl \<and>
            events (m_fdContexts s3 ! i) AND event = 0 \<and>
            vacant (slot_get sl (m_fdContexts s3 ! i)) \<and>
            scheduler (slot_get sl (m_fdContexts s ! i)) = Some a \<and>
            S a = Some sch \<and> S' = S(a \<mapsto> sch') \<and>
            m_tasks sch' = m_tasks sch @
              [\<lparr>cor = ecor (slot_get sl (m_fdContexts s ! i)),
                cb = ecb (slot_get sl (m_fdContexts s ! i)), thread = - 1\<rparr>]"
    by blast
qed

theorem slots_follow_bits_witness:
  "list_all slots_ok (m_fdContexts iom0) \<and>
   list_all slots_ok (m_fdContexts iom1) \<and>
   events (m_fdContexts iom1 ! 5) AND READ \<noteq> 0 \<and>
   populated (read_ctx (m_fdContexts iom1 ! 5)) \<and>
   (\<exists>s2. delEvent (\<lambda>epfd op fd ev. 0) iom1 5 READ = Inr (True, s2) \<and>
      list_all slots_ok (m_fdContexts s2) \<and>
      events (m_fdContexts s2 ! 5) AND READ = 0 \<and>
      vacant (read_ctx (m_fdContexts s2 ! 5))) \<and>
   (\<exists>S' s3 sch'. trigger_at scheds1 iom1 5 READ = Inr (S', s3) \<and>
      list_all slots_ok (m_fdContexts s3) \<and>
      events (m_fdContexts s3 ! 5) AND READ = 0 \<and>
      vacant (read_ctx (m_fdContexts s3 ! 5)) \<and>
      S' = scheds1(1 \<mapsto> sch') \<and>
      m_tasks sch' = [\<lparr>cor = None, cb = Some (UserFn 0), thread = - 1\<rparr>])"
proof -
  from iom1_add obtain w' where
    a: "addEvent (\<lambda>epfd op fd ev. 0) 9 world_worker iom0 5 READ (Some (UserFn 0)) =
          Inr (0, w', iom1)" by blast
  from iom1_del obtain s2 where
    d: "delEvent (\<lambda>epfd op fd ev. 0) iom1 5 READ = Inr (True, s2)" by blast
  from iom1_trigger obtain S' s3 where
    t: "trigger_at scheds1 iom1 5 READ = Inr (S', s3)" by blast
  have zero: "list_all slots_ok (m_fdContexts iom0)"
    using slots_follow_bits [where epfd = 3, THEN conjunct1] by (simp add: iom0_def)
  note add0 = slots_follow_bits [where epoll_ctl = "\<lambda>epfd op fd ev. 0" and fresh = 9
        and w = world_worker and fd = 5 and event = READ and cb_arg = "Some (UserFn 0)" and r = 0 and w' = w' and ?s1.0 = iom1,
      THEN conjunct2, THEN mp, OF zero, THEN conjunct1]
  have one: "list_all slots_ok (m_fdContexts iom1) \<and>
      events (m_fdContexts iom1 ! 5) AND READ \<noteq> 0 \<and>
      populated (read_ctx (m_fdContexts iom1 ! 5))"
    using add0 a iom_facts(2) by (auto simp: READ_slot)
  then have ok1: "list_all slots_ok (m_fdContexts iom1)" by simp
  note del1 = slots_follow_bits [where epoll_ctl = "\<lambda>epfd op fd ev. 0" and fd = 5
        and event = READ and b = True and ?s2.0 = s2,
      THEN conjunct2, THEN mp, OF ok1, THEN conjunct2, THEN conjunct1]
  have two: "list_all slots_ok (m_fdContexts s2) \<and>
      events (m_fdContexts s2 ! 5) AND READ = 0 \<and> vacant (read_ctx (m_fdContexts s2 ! 5))"
    using del1 d by (auto simp: READ_slot)
  note trig1 = slots_follow_bits [where S = scheds1 and i = 5 and event = READ and S' = S'
        and ?s3.0 = s3,
      THEN conjunct2, THEN mp, OF ok1, THEN conjunct2, THEN conjunct2]
  have slot5: "scheduler (read_ctx (m_fdContexts iom1 ! 5)) = Some 1"
    "ecor (read_ctx (m_fdContexts iom1 ! 5)) = None"
    "ecb (read_ctx (m_fdContexts iom1 ! 5)) = Some (UserFn 0)"
    "scheds1 1 = Some sched0"
    by code_simp+
  have three: "\<exists>sch'. list_all slots_ok (m_fdContexts s3) \<and>
      events (m_fdContexts s3 ! 5) AND READ = 0 \<and> vacant (read_ctx (m_fdContexts s3 ! 5)) \<and>
      S' = scheds1(1 \<mapsto> sch') \<and>
      m_tasks sch' = [\<lparr>cor = None, cb = Some (UserFn 0), thread = - 1\<rparr>]"
    using trig1 t slot5 by (auto simp: READ_slot sched_tasks)
  from zero one two three d t show ?thesis by blast
qed




end
